theory Spec2Isabelle
  imports Main "HOL-Library.Word"
begin

section \<open>The object table of the PostgreSQL storage\<close>

text \<open>
  The storage of \<^verbatim>\<open>guillotina/db/storages/pg.py\<close> keeps every object as one row of the
  objects table (\<^verbatim>\<open>_object_schema\<close>) and every blob chunk as one row of the blobs table
  (\<^verbatim>\<open>_blob_schema\<close>). A table is the list of its rows in insertion order; \<^verbatim>\<open>NULL\<close> is
  \<open>None\<close>. The columns \<^verbatim>\<open>of\<close>, \<^verbatim>\<open>id\<close> and \<^verbatim>\<open>type\<close> are written \<open>of_ref\<close>, \<open>id_key\<close> and
  \<open>type_name\<close>: the plain names are taken in HOL.
\<close>

type_synonym bytes = "8 word list"

record row =
  zoid :: string
  tid :: int
  state_size :: int
  part :: int
  resource :: bool
  of_ref :: "string option"
  otid :: "int option"
  parent_id :: "string option"
  id_key :: "string option"
  type_name :: string
  json :: "string option"
  state :: "bytes option"

record blob_row =
  bid :: string
  blob_zoid :: string
  chunk_index :: int
  data :: bytes

record db =
  objects :: "row list"
  blobs :: "blob_row list"

text \<open>
  What the storage reads of an object (\<^verbatim>\<open>obj.__new_marker__\<close>, \<^verbatim>\<open>obj.__serial__\<close>,
  \<^verbatim>\<open>obj.__uuid__\<close>) and of a transaction (\<^verbatim>\<open>txn._tid\<close>, \<^verbatim>\<open>txn.modified\<close>, \<^verbatim>\<open>txn.deleted\<close>,
  the hooks added with \<^verbatim>\<open>txn.add_after_commit_hook\<close>). The two dictionaries are association
  lists from OID to object, in insertion order.
\<close>

record obj =
  new_marker :: bool
  serial :: "int option"
  uuid :: string

datatype hook = Txn_oid_commit_hook string

record txn =
  txn_tid :: int
  modified :: "(string \<times> obj) list"
  deleted :: "(string \<times> obj) list"
  after_commit_hooks :: "hook list"

subsection \<open>Conflict detection: \<^verbatim>\<open>get_conflicts\<close>\<close>

text \<open>
  The two registered statements, with their parameters bound:
  \<^verbatim>\<open>TXN_CONFLICTS\<close> is \<^verbatim>\<open>SELECT zoid, tid, state_size, resource, type, id FROM t WHERE tid > $1\<close>
  and \<^verbatim>\<open>TXN_CONFLICTS_ON_OIDS\<close> adds \<^verbatim>\<open>AND zoid = ANY($2)\<close>.
\<close>

datatype conflict_statement =
  TXN_CONFLICTS int
| TXN_CONFLICTS_ON_OIDS int "string list"

type_synonym conflict_record = "string \<times> int \<times> int \<times> bool \<times> string \<times> string option"

definition conflict_columns :: "row \<Rightarrow> conflict_record" where
  "conflict_columns r = (zoid r, tid r, state_size r, resource r, type_name r, id_key r)"

fun read_conn_fetch :: "conflict_statement \<Rightarrow> row list \<Rightarrow> conflict_record list" where
  "read_conn_fetch (TXN_CONFLICTS t) tbl =
     map conflict_columns (filter (\<lambda>r. tid r > t) tbl)"
| "read_conn_fetch (TXN_CONFLICTS_ON_OIDS t oids) tbl =
     map conflict_columns (filter (\<lambda>r. tid r > t \<and> zoid r \<in> set oids) tbl)"

text \<open>
  \<^verbatim>\<open>get_conflicts\<close> returns the fetched records; the model returns with them the
  statements it sent over the read connection, so that a call that sends none is
  told from a call whose statement finds no row.
\<close>

definition get_conflicts :: "db \<Rightarrow> txn \<Rightarrow> conflict_record list \<times> conflict_statement list" where
  "get_conflicts d t =
     (if length (modified t) = 0 then ([], [])
      else if length (modified t) < 1000 then
        (let modified_oids = map fst (modified t);
             sql = TXN_CONFLICTS_ON_OIDS (txn_tid t) modified_oids
         in (read_conn_fetch sql (objects d), [sql]))
      else
        (let sql = TXN_CONFLICTS (txn_tid t)
         in (read_conn_fetch sql (objects d), [sql])))"

subsection \<open>Statements that write the objects table\<close>

text \<open>
  What asyncpg raises when a statement fails. The first three come from the constraints
  of the table; an \<open>InterfaceError\<close> or a \<open>DeadlockDetectedError\<close> comes from the
  connection and the other sessions, not from the rows the statement sees.
\<close>

datatype pg_exception =
  UniqueViolationError string
| ForeignKeyViolationError
| CheckViolationError
| InterfaceError string
| DeadlockDetectedError

text \<open>Python's \<^verbatim>\<open>sub in s\<close> on strings.\<close>

primrec str_in :: "string \<Rightarrow> string \<Rightarrow> bool" where
  "str_in sub [] = (sub = [])"
| "str_in sub (c # cs) = (take (length sub) (c # cs) = sub \<or> str_in sub cs)"

text \<open>
  The constraints a written row \<open>v\<close> must meet, given the rows \<open>others\<close> that the table
  holds beside it once the statement is done, in the order PostgreSQL checks them:
  \<^item> the check \<^verbatim>\<open>parent_id != zoid\<close> of \<^verbatim>\<open>_initialize_statements\<close>;
  \<^item> the unique index of \<^verbatim>\<open>_unique_constraint\<close> on \<^verbatim>\<open>(parent_id, id)\<close>, which holds only the
    rows \<^verbatim>\<open>WHERE parent_id != TRASHED_ID\<close> (a \<^verbatim>\<open>NULL\<close> is equal to nothing);
  \<^item> the references of \<^verbatim>\<open>parent_id\<close> and \<^verbatim>\<open>of\<close> to a \<^verbatim>\<open>zoid\<close> of the table.
  The primary key is kept by the statements themselves: an upsert resolves a clash on
  \<^verbatim>\<open>zoid\<close>, an update leaves \<^verbatim>\<open>zoid\<close> alone. The first argument is \<^verbatim>\<open>TRASHED_ID\<close>.
\<close>

definition unique_detail :: "string \<Rightarrow> string \<Rightarrow> string" where
  "unique_detail p i = ''Key (parent_id, id)=('' @ p @ '', '' @ i @ '') already exists.''"

definition constraint_error :: "string \<Rightarrow> row \<Rightarrow> row list \<Rightarrow> pg_exception option" where
  "constraint_error trashed v others =
     (if parent_id v = Some (zoid v) then Some CheckViolationError
      else case
        (case (parent_id v, id_key v) of
           (Some p, Some i) \<Rightarrow>
             if p \<noteq> trashed \<and> (\<exists>r \<in> set others. parent_id r = Some p \<and> id_key r = Some i)
             then Some (UniqueViolationError (unique_detail p i)) else None
         | _ \<Rightarrow> None)
      of Some e \<Rightarrow> Some e
      | None \<Rightarrow>
        if (case parent_id v of Some p \<Rightarrow> p \<notin> zoid ` set (v # others) | None \<Rightarrow> False)
         \<or> (case of_ref v of Some p \<Rightarrow> p \<notin> zoid ` set (v # others) | None \<Rightarrow> False)
        then Some ForeignKeyViolationError else None)"

text \<open>
  The four registered write statements. Their twelve parameters are the twelve columns
  in order, so the parameters are a row \<open>v\<close>. \<^verbatim>\<open>NAIVE_UPSERT\<close> inserts, or on a clash on
  \<^verbatim>\<open>zoid\<close> overwrites every column; \<^verbatim>\<open>UPSERT\<close> overwrites only \<^verbatim>\<open>WHERE tid = EXCLUDED.otid\<close>.
  \<^verbatim>\<open>NAIVE_UPDATE\<close> overwrites the row \<^verbatim>\<open>WHERE zoid = $1\<close>; \<^verbatim>\<open>UPDATE\<close> adds
  \<^verbatim>\<open>AND tid = $7::int\<close>, where \<^verbatim>\<open>$7\<close> is the \<^verbatim>\<open>otid\<close> parameter. Each is wrapped by
  \<^verbatim>\<open>_wrap_return_count\<close>, so the answer is one record holding the number of rows
  written. A statement that fails leaves the table as it was.
\<close>

datatype write_statement = UPSERT | NAIVE_UPSERT | UPDATE | NAIVE_UPDATE

definition overwrite :: "string \<Rightarrow> (row \<Rightarrow> bool) \<Rightarrow> row \<Rightarrow> row list \<Rightarrow> (pg_exception + nat list) \<times> row list" where
  "overwrite trashed hit v tbl =
     (if \<exists>r \<in> set tbl. hit r then
        (case constraint_error trashed v (filter (\<lambda>r. zoid r \<noteq> zoid v) tbl) of
           Some e \<Rightarrow> (Inl e, tbl)
         | None \<Rightarrow> (Inr [length (filter hit tbl)], map (\<lambda>r. if hit r then v else r) tbl))
      else (Inr [0], tbl))"

definition insert_row :: "string \<Rightarrow> row \<Rightarrow> row list \<Rightarrow> (pg_exception + nat list) \<times> row list" where
  "insert_row trashed v tbl =
     (case constraint_error trashed v tbl of
        Some e \<Rightarrow> (Inl e, tbl)
      | None \<Rightarrow> (Inr [1], tbl @ [v]))"

fun execute_write :: "string \<Rightarrow> write_statement \<Rightarrow> row \<Rightarrow> row list \<Rightarrow> (pg_exception + nat list) \<times> row list" where
  "execute_write trashed NAIVE_UPSERT v tbl =
     (if \<exists>r \<in> set tbl. zoid r = zoid v
      then overwrite trashed (\<lambda>r. zoid r = zoid v) v tbl
      else insert_row trashed v tbl)"
| "execute_write trashed UPSERT v tbl =
     (if \<exists>r \<in> set tbl. zoid r = zoid v
      then overwrite trashed (\<lambda>r. zoid r = zoid v \<and> Some (tid r) = otid v) v tbl
      else insert_row trashed v tbl)"
| "execute_write trashed NAIVE_UPDATE v tbl =
     overwrite trashed (\<lambda>r. zoid r = zoid v) v tbl"
| "execute_write trashed UPDATE v tbl =
     overwrite trashed (\<lambda>r. zoid r = zoid v \<and> Some (tid r) = otid v) v tbl"

text \<open>
  \<^verbatim>\<open>conn.fetch\<close> on the transaction's connection. \<open>fault\<close> is what the connection raises
  by itself (an operation already in progress, a deadlock with another session), \<open>None\<close>
  when the statement runs.
\<close>

definition conn_fetch :: "pg_exception option \<Rightarrow> string \<Rightarrow> write_statement \<Rightarrow> row \<Rightarrow> row list
    \<Rightarrow> (pg_exception + nat list) \<times> row list" where
  "conn_fetch fault trashed sql v tbl =
     (case fault of Some e \<Rightarrow> (Inl e, tbl) | None \<Rightarrow> execute_write trashed sql v tbl)"

subsection \<open>\<^verbatim>\<open>PostgresqlStorage.store\<close>\<close>

text \<open>
  The storage's settings read here. \<^verbatim>\<open>TRASHED_ID\<close> is a constant of
  \<^verbatim>\<open>guillotina.const\<close>, which is not among the sources: it is the parameter \<open>trashed_id\<close>.
\<close>

record storage =
  store_json :: bool
  autovacuum :: bool
  trashed_id :: string

text \<open>
  What \<^verbatim>\<open>store\<close> reads of the writer: \<^verbatim>\<open>writer.serialize()\<close>, \<^verbatim>\<open>ujson.dumps\<close> of
  \<^verbatim>\<open>writer.get_json()\<close>, and the attributes \<^verbatim>\<open>part\<close>, \<^verbatim>\<open>resource\<close>, \<^verbatim>\<open>of\<close>, \<^verbatim>\<open>parent_id\<close>, \<^verbatim>\<open>id\<close>
  and \<^verbatim>\<open>type\<close>.
\<close>

record writer =
  w_serialize :: bytes
  w_json :: string
  w_part :: "int option"
  w_resource :: bool
  w_of :: "string option"
  w_parent_id :: "string option"
  w_id :: "string option"
  w_type :: string

text \<open>
  The exceptions that leave the storage: its own three classes, with the message, and
  an asyncpg exception that no handler catches.
\<close>

datatype error =
  ConflictIdOnContainer pg_exception
| TIDConflictError string
| ConflictError string
| Asyncpg pg_exception

definition bad_cache_value_message :: string where
  "bad_cache_value_message =
     ''Bad value inserting into database that could be caused by a bad cache value. This should resolve on request retry.''"

definition tid_mismatch_message :: string where
  "tid_mismatch_message =
     ''Mismatch of tid of object being updated. This is likely caused by a cache invalidation race condition and should be an edge case. This should resolve on request retry.''"

text \<open>Python's \<^verbatim>\<open>d[k] = v\<close> on a dictionary kept as an association list.\<close>

fun dict_set :: "('k \<times> 'v) list \<Rightarrow> 'k \<Rightarrow> 'v \<Rightarrow> ('k \<times> 'v) list" where
  "dict_set [] k v = [(k, v)]"
| "dict_set ((k', v') # kvs) k v =
     (if k' = k then (k, v) # kvs else (k', v') # dict_set kvs k v)"

text \<open>
  The twelve arguments \<^verbatim>\<open>store\<close> passes to \<^verbatim>\<open>conn.fetch\<close> after the statement: the OID,
  the transaction's TID, \<^verbatim>\<open>len(pickled)\<close>, \<^verbatim>\<open>part\<close> (0 when the writer has none),
  \<^verbatim>\<open>writer.resource\<close>, \<^verbatim>\<open>writer.of\<close>, \<^verbatim>\<open>old_serial\<close>, \<^verbatim>\<open>writer.parent_id\<close>, \<^verbatim>\<open>writer.id\<close>,
  \<^verbatim>\<open>writer.type\<close>, the JSON (\<^verbatim>\<open>{}\<close> when the storage keeps none) and the pickle.
\<close>

definition store_args :: "storage \<Rightarrow> string \<Rightarrow> int option \<Rightarrow> writer \<Rightarrow> txn \<Rightarrow> row" where
  "store_args st oid old_serial wr t =
     (let pickled = w_serialize wr;
          json_arg = (if store_json st then w_json wr else ''{}'');
          part_arg = (case w_part wr of None \<Rightarrow> 0 | Some p \<Rightarrow> p)
      in \<lparr>zoid = oid, tid = txn_tid t, state_size = int (length pickled),
          part = part_arg, resource = w_resource wr, of_ref = w_of wr,
          otid = old_serial, parent_id = w_parent_id wr, id_key = w_id wr,
          type_name = w_type wr, json = Some json_arg, state = Some pickled\<rparr>)"

text \<open>
  \<^verbatim>\<open>store(oid, old_serial, writer, obj, txn)\<close>, on the tables and the transaction it
  changes. The result is the exception raised, or \<open>()\<close>; the state is returned in both
  cases, since the handler of the foreign-key violation writes \<^verbatim>\<open>txn.deleted\<close> before
  it raises. The OID is a string, so the opening \<^verbatim>\<open>assert oid is not None\<close> holds. The
  log lines are left out, and so is the last line, which hands the object to the
  transaction's cache (\<^verbatim>\<open>txn._cache.store_object\<close>, not in these sources).
\<close>

definition store :: "storage \<Rightarrow> pg_exception option \<Rightarrow> string \<Rightarrow> int option \<Rightarrow> writer \<Rightarrow> obj
    \<Rightarrow> db \<times> txn \<Rightarrow> (error + unit) \<times> db \<times> txn" where
  "store st fault oid old_serial wr ob s =
     (let d = fst s; t = snd s;
          update = (\<not> new_marker ob \<and> serial ob \<noteq> None);
          statement_sql = (if update then UPDATE else NAIVE_UPSERT)
      in case conn_fetch fault (trashed_id st) statement_sql
                (store_args st oid old_serial wr t) (objects d) of
           (Inl (UniqueViolationError detail), _) \<Rightarrow>
             if str_in ''Key (parent_id, id)'' detail
             then (Inl (ConflictIdOnContainer (UniqueViolationError detail)), s)
             else (Inl (Asyncpg (UniqueViolationError detail)), s)
         | (Inl ForeignKeyViolationError, _) \<Rightarrow>
             (Inl (TIDConflictError bad_cache_value_message),
              d, t\<lparr>deleted := dict_set (deleted t) (uuid ob) ob\<rparr>)
         | (Inl (InterfaceError a), _) \<Rightarrow>
             if str_in ''another operation is in progress'' a
             then (Inl (ConflictError ''asyncpg error, another operation in progress.''), s)
             else (Inl (Asyncpg (InterfaceError a)), s)
         | (Inl DeadlockDetectedError, _) \<Rightarrow>
             (Inl (ConflictError ''Deadlock detected.''), s)
         | (Inl CheckViolationError, _) \<Rightarrow> (Inl (Asyncpg CheckViolationError), s)
         | (Inr result, tbl') \<Rightarrow>
             if (length result \<noteq> 1 \<or> hd result \<noteq> 1) \<and> update
             then (Inl (TIDConflictError tid_mismatch_message), d\<lparr>objects := tbl'\<rparr>, t)
             else (Inr (), d\<lparr>objects := tbl'\<rparr>, t))"

subsection \<open>Deferred deletion: \<^verbatim>\<open>delete\<close>, the trash and the vacuum\<close>

text \<open>
  \<^verbatim>\<open>CREATE_TRASH\<close> inserts the sentinel row unless the table has it:
  \<^verbatim>\<open>SELECT '{TRASHED_ID}', 0, 0, 0, FALSE, 'TRASH_REF' WHERE NOT EXISTS (...)\<close>.
\<close>

definition trash_row :: "string \<Rightarrow> row" where
  "trash_row trashed =
     \<lparr>zoid = trashed, tid = 0, state_size = 0, part = 0, resource = False, of_ref = None,
      otid = None, parent_id = None, id_key = None, type_name = ''TRASH_REF'',
      json = None, state = None\<rparr>"

definition create_trash :: "string \<Rightarrow> row list \<Rightarrow> row list" where
  "create_trash trashed tbl =
     (if \<exists>r \<in> set tbl. zoid r = trashed then tbl else tbl @ [trash_row trashed])"

text \<open>
  \<^verbatim>\<open>TRASH_PARENT_ID\<close> is \<^verbatim>\<open>UPDATE t SET parent_id = '{TRASHED_ID}' WHERE zoid = $1\<close>. The
  row it writes meets the same constraints as any written row.
\<close>

definition trash_parent_id :: "string \<Rightarrow> string \<Rightarrow> row list \<Rightarrow> pg_exception option \<times> row list" where
  "trash_parent_id trashed oid tbl =
     (case find (\<lambda>r. zoid r = oid) tbl of
        None \<Rightarrow> (None, tbl)
      | Some r \<Rightarrow>
          (case constraint_error trashed (r\<lparr>parent_id := Some trashed\<rparr>)
                  (filter (\<lambda>x. zoid x \<noteq> oid) tbl) of
             Some e \<Rightarrow> (Some e, tbl)
           | None \<Rightarrow>
               (None, map (\<lambda>x. if zoid x = oid then x\<lparr>parent_id := Some trashed\<rparr> else x) tbl)))"

text \<open>
  \<^verbatim>\<open>delete(txn, oid)\<close> runs the statement inside the caller's transaction and, when the
  storage was built with \<^verbatim>\<open>autovacuum\<close>, adds \<^verbatim>\<open>_txn_oid_commit_hook\<close> with the OID to the
  transaction's after-commit hooks. It has no handler: what the statement raises leaves
  \<^verbatim>\<open>delete\<close> before the hook is added.
\<close>

definition delete :: "storage \<Rightarrow> string \<Rightarrow> db \<times> txn \<Rightarrow> (error + unit) \<times> db \<times> txn" where
  "delete st oid s =
     (let d = fst s; t = snd s in
      case trash_parent_id (trashed_id st) oid (objects d) of
        (Some e, _) \<Rightarrow> (Inl (Asyncpg e), s)
      | (None, tbl') \<Rightarrow>
          (Inr (), d\<lparr>objects := tbl'\<rparr>,
           if autovacuum st
           then t\<lparr>after_commit_hooks := after_commit_hooks t @ [Txn_oid_commit_hook oid]\<rparr>
           else t))"

text \<open>
  \<^verbatim>\<open>GET_CHILD\<close> with \<^verbatim>\<open>fetchrow\<close>: the first row \<^verbatim>\<open>WHERE parent_id = $1 AND id = $2\<close>, as
  the columns \<^verbatim>\<open>zoid, tid, state_size, resource, type, state, id\<close>.
\<close>

type_synonym child_record = "string \<times> int \<times> int \<times> bool \<times> string \<times> bytes option \<times> string option"

definition child_columns :: "row \<Rightarrow> child_record" where
  "child_columns r = (zoid r, tid r, state_size r, resource r, type_name r, state r, id_key r)"

definition get_child :: "db \<Rightarrow> string \<Rightarrow> string \<Rightarrow> child_record option" where
  "get_child d parent_oid i =
     map_option child_columns
       (find (\<lambda>r. parent_id r = Some parent_oid \<and> id_key r = Some i) (objects d))"

text \<open>
  \<^verbatim>\<open>GET_TRASHED_OBJECTS\<close> is \<^verbatim>\<open>SELECT zoid from t where parent_id = '{TRASHED_ID}'\<close>;
  \<^verbatim>\<open>PGVacuum.run\<close> puts every OID it returns on the vacuum's queue.
\<close>

definition get_trashed_objects :: "string \<Rightarrow> db \<Rightarrow> string list" where
  "get_trashed_objects trashed d =
     map zoid (filter (\<lambda>r. parent_id r = Some trashed) (objects d))"

text \<open>
  The vacuum: its queue of OIDs and the flag \<^verbatim>\<open>_closed\<close>. \<^verbatim>\<open>_txn_oid_commit_hook\<close> calls
  \<^verbatim>\<open>add_to_queue\<close>, which raises \<^verbatim>\<open>Exception('Closing down')\<close> on a closed vacuum.
\<close>

record pg_vacuum =
  queue :: "string list"
  closed :: bool

definition add_to_queue :: "string \<Rightarrow> pg_vacuum \<Rightarrow> string + pg_vacuum" where
  "add_to_queue oid v =
     (if closed v then Inl ''Closing down'' else Inr (v\<lparr>queue := queue v @ [oid]\<rparr>))"

fun txn_oid_commit_hook :: "hook \<Rightarrow> pg_vacuum \<Rightarrow> string + pg_vacuum" where
  "txn_oid_commit_hook (Txn_oid_commit_hook oid) v = add_to_queue oid v"

text \<open>
  \<^verbatim>\<open>DELETE_OBJECT\<close> is \<^verbatim>\<open>DELETE FROM t WHERE zoid = $1\<close>. The columns \<^verbatim>\<open>parent_id\<close> and \<^verbatim>\<open>of\<close>
  of the objects table and \<^verbatim>\<open>zoid\<close> of the blobs table are declared
  \<^verbatim>\<open>REFERENCES ... ON DELETE CASCADE\<close>: the rows that refer to a deleted row go with it,
  and so on down.
\<close>

definition refers_to :: "string list \<Rightarrow> row \<Rightarrow> bool" where
  "refers_to oids r =
     ((case parent_id r of Some p \<Rightarrow> p \<in> set oids | None \<Rightarrow> False)
      \<or> (case of_ref r of Some p \<Rightarrow> p \<in> set oids | None \<Rightarrow> False))"

function delete_cascade :: "string list \<Rightarrow> row list \<Rightarrow> row list" where
  "delete_cascade oids tbl =
     (if \<exists>r \<in> set tbl. zoid r \<in> set oids then
        (let rest = filter (\<lambda>r. zoid r \<notin> set oids) tbl
         in delete_cascade (map zoid (filter (refers_to oids) rest)) rest)
      else tbl)"
  by pat_completeness auto
termination
proof (relation "measure (\<lambda>(oids, tbl). length tbl)")
  show "wf (measure (\<lambda>(oids, tbl). length tbl))" by simp
next
  fix oids :: "string list" and tbl :: "row list" and x
  assume "\<exists>r \<in> set tbl. zoid r \<in> set oids" and x: "x = filter (\<lambda>r. zoid r \<notin> set oids) tbl"
  then have "length (filter (\<lambda>r. zoid r \<notin> set oids) tbl) < length tbl"
    by (auto intro: length_filter_less)
  with x show "((map zoid (filter (refers_to oids) x), x), oids, tbl)
                 \<in> measure (\<lambda>(oids, tbl). length tbl)"
    by simp
qed

declare delete_cascade.simps [simp del]

definition delete_object :: "string \<Rightarrow> db \<Rightarrow> db" where
  "delete_object oid d =
     (let tbl' = delete_cascade [oid] (objects d)
      in \<lparr>objects = tbl',
          blobs = filter (\<lambda>b. blob_zoid b \<in> zoid ` set tbl' \<or> blob_zoid b \<notin> zoid ` set (objects d))
                    (blobs d)\<rparr>)"

text \<open>
  \<^verbatim>\<open>PGVacuum.vacuum(oid, table_name)\<close> runs \<^verbatim>\<open>DELETE_OBJECT\<close> on a connection of its own;
  the worker \<^verbatim>\<open>_initialize\<close> takes the OIDs off the queue one at a time.
\<close>

definition vacuum :: "string \<Rightarrow> db \<Rightarrow> db" where
  "vacuum oid d = delete_object oid d"

subsection \<open>Blob chunks\<close>

text \<open>
  \<^verbatim>\<open>HAS_OBJECT\<close> is \<^verbatim>\<open>SELECT zoid FROM t WHERE zoid = $1\<close>. When it finds no row,
  \<^verbatim>\<open>write_blob_chunk\<close> inserts a stub with the columns
  \<^verbatim>\<open>(zoid, tid, state_size, part, resource, type) = ($1, -1, 0, 0, TRUE, 'stub')\<close>: a row
  with no parent and no \<^verbatim>\<open>of\<close>, under a \<^verbatim>\<open>zoid\<close> the table does not have, which no
  constraint refuses.
\<close>

definition has_object :: "string \<Rightarrow> row list \<Rightarrow> string option" where
  "has_object oid tbl = map_option zoid (find (\<lambda>r. zoid r = oid) tbl)"

definition stub_row :: "string \<Rightarrow> row" where
  "stub_row oid =
     \<lparr>zoid = oid, tid = - 1, state_size = 0, part = 0, resource = True, of_ref = None,
      otid = None, parent_id = None, id_key = None, type_name = ''stub'',
      json = None, state = None\<rparr>"

text \<open>
  \<^verbatim>\<open>INSERT_BLOB_CHUNK\<close> adds the row \<^verbatim>\<open>(bid, zoid, chunk_index, data)\<close>. The primary key
  of the blobs table is \<^verbatim>\<open>(bid, zoid, chunk_index)\<close>, and \<^verbatim>\<open>zoid\<close> refers to the objects
  table.
\<close>

definition insert_blob_chunk :: "blob_row \<Rightarrow> db \<Rightarrow> pg_exception option \<times> blob_row list" where
  "insert_blob_chunk v d =
     (if \<exists>b \<in> set (blobs d). bid b = bid v \<and> blob_zoid b = blob_zoid v
                                \<and> chunk_index b = chunk_index v
      then (Some (UniqueViolationError ''Key (bid, zoid, chunk_index) already exists.''), blobs d)
      else if blob_zoid v \<notin> zoid ` set (objects d)
      then (Some ForeignKeyViolationError, blobs d)
      else (None, blobs d @ [v]))"

definition write_blob_chunk :: "string \<Rightarrow> string \<Rightarrow> int \<Rightarrow> bytes \<Rightarrow> db \<Rightarrow> (error + unit) \<times> db" where
  "write_blob_chunk b oid idx dat d =
     (let d1 = (case has_object oid (objects d) of
                  None \<Rightarrow> d\<lparr>objects := objects d @ [stub_row oid]\<rparr>
                | Some _ \<Rightarrow> d)
      in case insert_blob_chunk \<lparr>bid = b, blob_zoid = oid, chunk_index = idx, data = dat\<rparr> d1 of
           (Some e, _) \<Rightarrow> (Inl (Asyncpg e), d1)
         | (None, bl) \<Rightarrow> (Inr (), d1\<lparr>blobs := bl\<rparr>))"

text \<open>
  \<^verbatim>\<open>READ_BLOB_CHUNK\<close> with \<^verbatim>\<open>fetchrow\<close>: the first row
  \<^verbatim>\<open>WHERE bid = $1 AND chunk_index = $2\<close>, all its columns.
\<close>

definition read_blob_chunk :: "string \<Rightarrow> int \<Rightarrow> db \<Rightarrow> blob_row option" where
  "read_blob_chunk b chunk d =
     find (\<lambda>r. bid r = b \<and> chunk_index r = chunk) (blobs d)"

text \<open>
  A writer that sends the chunks of a byte stream one call after the other, counting
  the index up from \<open>i\<close> and stopping at the first call that raises; and a reader that
  asks for the chunks \<open>0, ..., n - 1\<close> in turn.
\<close>

fun write_chunks :: "string \<Rightarrow> string \<Rightarrow> int \<Rightarrow> bytes list \<Rightarrow> db \<Rightarrow> (error + unit) \<times> db" where
  "write_chunks b oid i [] d = (Inr (), d)"
| "write_chunks b oid i (c # cs) d =
     (case write_blob_chunk b oid i c d of
        (Inl e, d') \<Rightarrow> (Inl e, d')
      | (Inr _, d') \<Rightarrow> write_chunks b oid (i + 1) cs d')"

definition read_chunks :: "string \<Rightarrow> nat \<Rightarrow> db \<Rightarrow> blob_row option list" where
  "read_chunks b n d = map (\<lambda>i. read_blob_chunk b (int i) d) [0..<n]"

section \<open>The cache utility\<close>

text \<open>
  \<^verbatim>\<open>CacheUtility\<close> of \<^verbatim>\<open>guillotina/contrib/cache/utility.py\<close>. The values it handles are
  Python values; the ones the code tells apart are modelled (floats are left out).
\<close>

datatype pyval =
  PNone
| PBool bool
| PInt int
| PStr string
| PBytes bytes
| PList "pyval list"
| PDict "(string \<times> pyval) list"

text \<open>
  The exceptions met in the cache and the pubsub utility. \<open>OtherError\<close> is any other
  subclass of \<^verbatim>\<open>Exception\<close>, by name: whatever a driver or the local cache may raise.
\<close>

datatype exn =
  AssertionError
| TypeError
| UnpicklingError
| AttributeError
| KeyError
| NoPubSubDriver
| OtherError string

datatype level = INFO | WARNING | ERROR

text \<open>
  The utility's collaborators are not among the sources: the local cache (the class
  \<^verbatim>\<open>LRU\<close> of \<^verbatim>\<open>guillotina.contrib.cache.lru\<close>), the remote driver, the module
  \<^verbatim>\<open>serialize\<close>, \<^verbatim>\<open>sys.getsizeof\<close> and the constant \<^verbatim>\<open>CACHE_PREFIX\<close>. They are parameters:
  any local cache with state \<open>'c\<close> and any driver with state \<open>'r\<close>, each operation free to
  raise. The operations are the ones the utility calls:
  \<^verbatim>\<open>key in cache\<close>, \<^verbatim>\<open>cache[key]\<close>, \<^verbatim>\<open>cache[key] = value\<close>, \<^verbatim>\<open>cache.set(key, value, size)\<close>,
  \<^verbatim>\<open>del cache[key]\<close>, \<^verbatim>\<open>cache.clear()\<close>; and the driver's \<^verbatim>\<open>get\<close>, \<^verbatim>\<open>set\<close>, \<^verbatim>\<open>delete\<close>,
  \<^verbatim>\<open>delete_all\<close>, \<^verbatim>\<open>flushall\<close>. An operation that raises leaves its state as it was.
\<close>

record ('c, 'r) cache_env =
  CACHE_PREFIX :: string
  mc_contains :: "string \<Rightarrow> 'c \<Rightarrow> bool"
  mc_getitem :: "string \<Rightarrow> 'c \<Rightarrow> exn + pyval \<times> 'c"
  mc_setitem :: "string \<Rightarrow> pyval \<Rightarrow> 'c \<Rightarrow> exn + 'c"
  mc_set :: "string \<Rightarrow> pyval \<Rightarrow> nat \<Rightarrow> 'c \<Rightarrow> exn + 'c"
  mc_delitem :: "string \<Rightarrow> 'c \<Rightarrow> exn + 'c"
  mc_clear :: "'c \<Rightarrow> exn + 'c"
  drv_get :: "string \<Rightarrow> 'r \<Rightarrow> exn + pyval"
  drv_set :: "string \<Rightarrow> pyval \<Rightarrow> int \<Rightarrow> 'r \<Rightarrow> exn + 'r"
  drv_delete :: "string \<Rightarrow> 'r \<Rightarrow> exn + 'r"
  drv_delete_all :: "string list \<Rightarrow> 'r \<Rightarrow> exn + 'r"
  drv_flushall :: "'r \<Rightarrow> exn + 'r"
  loads :: "pyval \<Rightarrow> exn + pyval"
  dumps :: "pyval \<Rightarrow> exn + pyval"
  getsizeof :: "pyval \<Rightarrow> nat"

text \<open>
  The utility's own state: \<^verbatim>\<open>_memory_cache\<close>, \<^verbatim>\<open>_obj_driver\<close> (\<open>None\<close> when no driver is
  configured, else the remote tier), \<^verbatim>\<open>_ignored_tids\<close>, \<^verbatim>\<open>_settings.get('ttl')\<close>, and the
  records handed to the logger.
\<close>

record ('c, 'r) cache_utility =
  memory_cache :: 'c
  obj_driver :: "'r option"
  ignored_tids :: "pyval list"
  settings_ttl :: "int option"
  logged :: "(level \<times> string) list"

definition logger :: "level \<Rightarrow> string \<Rightarrow> ('c, 'r) cache_utility \<Rightarrow> ('c, 'r) cache_utility" where
  "logger l msg s = s\<lparr>logged := logged s @ [(l, msg)]\<rparr>"

subsection \<open>\<^verbatim>\<open>get\<close>\<close>

text \<open>
  The body of the \<^verbatim>\<open>try\<close>, then the method with its handler \<^verbatim>\<open>except Exception\<close>. A
  method that reaches its end returns \<^verbatim>\<open>None\<close>.
\<close>

definition cache_get_try :: "('c, 'r) cache_env \<Rightarrow> string \<Rightarrow> ('c, 'r) cache_utility
    \<Rightarrow> (exn + pyval) \<times> ('c, 'r) cache_utility" where
  "cache_get_try env key s =
     (if mc_contains env key (memory_cache s) then
        (let s1 = logger INFO (''Retrieved '' @ key @ '' from memory cache'') s in
         case mc_getitem env key (memory_cache s1) of
           Inl e \<Rightarrow> (Inl e, s1)
         | Inr (v, c) \<Rightarrow> (Inr v, s1\<lparr>memory_cache := c\<rparr>))
      else case obj_driver s of
        None \<Rightarrow> (Inr PNone, s)
      | Some r \<Rightarrow>
          (case drv_get env (CACHE_PREFIX env @ key) r of
             Inl e \<Rightarrow> (Inl e, s)
           | Inr val \<Rightarrow>
               if val \<noteq> PNone then
                 (let s1 = logger INFO (''Retrieved '' @ key @ '' from redis cache'') s in
                  case loads env val of
                    Inl e \<Rightarrow> (Inl e, s1)
                  | Inr val' \<Rightarrow>
                      (case mc_setitem env key val' (memory_cache s1) of
                         Inl e \<Rightarrow> (Inl e, s1)
                       | Inr c \<Rightarrow> (Inr PNone, s1\<lparr>memory_cache := c\<rparr>)))
               else (Inr PNone, s)))"

definition cache_get :: "('c, 'r) cache_env \<Rightarrow> string \<Rightarrow> ('c, 'r) cache_utility
    \<Rightarrow> (exn + pyval) \<times> ('c, 'r) cache_utility" where
  "cache_get env key s =
     (case cache_get_try env key s of
        (Inl e, s') \<Rightarrow> (Inr PNone, logger WARNING ''Error getting cache value'' s')
      | (Inr v, s') \<Rightarrow> (Inr v, s'))"

subsection \<open>\<^verbatim>\<open>get_size\<close> and \<^verbatim>\<open>set\<close>\<close>






subsection \<open>\<^verbatim>\<open>delete_all\<close>, \<^verbatim>\<open>delete\<close> and \<^verbatim>\<open>clear\<close>\<close>







subsection \<open>\<^verbatim>\<open>invalidate\<close> and \<^verbatim>\<open>ignore_tid\<close>\<close>

text \<open>
  Python's iteration over a value (\<^verbatim>\<open>for key in data['keys']\<close>): a list gives its
  elements, a string its characters, a dictionary its keys, bytes their integers;
  nothing else can be iterated.
\<close>

fun py_iter :: "pyval \<Rightarrow> exn + pyval list" where
  "py_iter (PList xs) = Inr xs"
| "py_iter (PStr x) = Inr (map (\<lambda>c. PStr [c]) x)"
| "py_iter (PDict kvs) = Inr (map (\<lambda>kv. PStr (fst kv)) kvs)"
| "py_iter (PBytes x) = Inr (map (\<lambda>w. PInt (uint w)) x)"
| "py_iter _ = Inl TypeError"

text \<open>
  The first loop: \<^verbatim>\<open>if key in self._memory_cache: del self._memory_cache[key]\<close>. The
  local cache is keyed by strings; a list or a dictionary cannot be hashed, and any
  other value is not a key of it.
\<close>

fun invalidate_keys :: "('c, 'r) cache_env \<Rightarrow> pyval list \<Rightarrow> ('c, 'r) cache_utility
    \<Rightarrow> (exn + unit) \<times> ('c, 'r) cache_utility" where
  "invalidate_keys env [] s = (Inr (), s)"
| "invalidate_keys env (PStr k # keys) s =
     (if mc_contains env k (memory_cache s) then
        (case mc_delitem env k (memory_cache s) of
           Inl e \<Rightarrow> (Inl e, s)
         | Inr c \<Rightarrow> invalidate_keys env keys (s\<lparr>memory_cache := c\<rparr>))
      else invalidate_keys env keys s)"
| "invalidate_keys env (PList x # keys) s = (Inl TypeError, s)"
| "invalidate_keys env (PDict x # keys) s = (Inl TypeError, s)"
| "invalidate_keys env (_ # keys) s = invalidate_keys env keys s"

text \<open>
  The second loop, over \<^verbatim>\<open>data.get('push', {}).items()\<close>:
  \<^verbatim>\<open>self._memory_cache[cache_key] = ob\<close>. A \<^verbatim>\<open>push\<close> that is not a dictionary has no
  \<^verbatim>\<open>items\<close>.
\<close>

definition push_items :: "(string \<times> pyval) list \<Rightarrow> exn + (string \<times> pyval) list" where
  "push_items kvs =
     (case map_of kvs ''push'' of
        None \<Rightarrow> Inr []
      | Some (PDict items) \<Rightarrow> Inr items
      | Some _ \<Rightarrow> Inl AttributeError)"

fun invalidate_push :: "('c, 'r) cache_env \<Rightarrow> (string \<times> pyval) list \<Rightarrow> ('c, 'r) cache_utility
    \<Rightarrow> (exn + unit) \<times> ('c, 'r) cache_utility" where
  "invalidate_push env [] s = (Inr (), s)"
| "invalidate_push env ((cache_key, ob) # items) s =
     (case mc_setitem env cache_key ob (memory_cache s) of
        Inl e \<Rightarrow> (Inl e, s)
      | Inr c \<Rightarrow> invalidate_push env items (s\<lparr>memory_cache := c\<rparr>))"

text \<open>The last loop: \<^verbatim>\<open>while len(self._ignored_tids) > 100: self._ignored_tids.pop(0)\<close>.\<close>

function trim_ignored_tids :: "pyval list \<Rightarrow> pyval list" where
  "trim_ignored_tids tids =
     (if length tids > 100 then trim_ignored_tids (tl tids) else tids)"
  by pat_completeness auto
termination
  by (relation "measure length") auto

declare trim_ignored_tids.simps [simp del]

text \<open>
  \<^verbatim>\<open>invalidate(data, sender)\<close>. A message that arrives as bytes or as a string is decoded
  first; only a \<^verbatim>\<open>TypeError\<close> or an \<^verbatim>\<open>UnpicklingError\<close> of the decoder is caught, and the
  three \<^verbatim>\<open>assert\<close> statements follow outside any handler.
\<close>

definition invalidate_decode :: "('c, 'r) cache_env \<Rightarrow> pyval \<Rightarrow> ('c, 'r) cache_utility
    \<Rightarrow> (exn + pyval option) \<times> ('c, 'r) cache_utility" where
  "invalidate_decode env data_arg s =
     (if (case data_arg of PBytes _ \<Rightarrow> True | PStr _ \<Rightarrow> True | _ \<Rightarrow> False) then
        (case loads env data_arg of
           Inl e \<Rightarrow>
             if e = TypeError \<or> e = UnpicklingError
             then (Inr None, logger WARNING ''Invalid message'' s)
             else (Inl e, s)
         | Inr d \<Rightarrow> (Inr (Some d), s))
      else (Inr (Some data_arg), s))"

definition invalidate :: "('c, 'r) cache_env \<Rightarrow> pyval \<Rightarrow> ('c, 'r) cache_utility
    \<Rightarrow> (exn + unit) \<times> ('c, 'r) cache_utility" where
  "invalidate env data_arg s =
     (case invalidate_decode env data_arg s of
        (Inl e, s1) \<Rightarrow> (Inl e, s1)
      | (Inr None, s1) \<Rightarrow> (Inr (), s1)
      | (Inr (Some (PDict kvs)), s1) \<Rightarrow>
          (case map_of kvs ''tid'' of
             None \<Rightarrow> (Inl AssertionError, s1)
           | Some t \<Rightarrow>
               (case map_of kvs ''keys'' of
                  None \<Rightarrow> (Inl AssertionError, s1)
                | Some keys \<Rightarrow>
                    if t \<in> set (ignored_tids s1)
                    then (Inr (), s1\<lparr>ignored_tids := remove1 t (ignored_tids s1)\<rparr>)
                    else
                      (case py_iter keys of
                         Inl e \<Rightarrow> (Inl e, s1)
                       | Inr ks \<Rightarrow>
                           (case invalidate_keys env ks s1 of
                              (Inl e, s2) \<Rightarrow> (Inl e, s2)
                            | (Inr _, s2) \<Rightarrow>
                                (case push_items kvs of
                                   Inl e \<Rightarrow> (Inl e, s2)
                                 | Inr items \<Rightarrow>
                                     (case invalidate_push env items s2 of
                                        (Inl e, s3) \<Rightarrow> (Inl e, s3)
                                      | (Inr _, s3) \<Rightarrow>
                                          (Inr (), s3\<lparr>ignored_tids :=
                                                       trim_ignored_tids (ignored_tids s3)\<rparr>)))))))
      | (Inr (Some _), s1) \<Rightarrow> (Inl AssertionError, s1))"

definition ignore_tid :: "pyval \<Rightarrow> ('c, 'r) cache_utility \<Rightarrow> ('c, 'r) cache_utility" where
  "ignore_tid t s = s\<lparr>ignored_tids := ignored_tids s @ [t]\<rparr>"

section \<open>The pubsub utility\<close>

text \<open>
  \<^verbatim>\<open>PubSubUtility\<close> of \<^verbatim>\<open>guillotina/contrib/pubsub/utility.py\<close>. A callback is a coroutine
  of the process: it gets \<^verbatim>\<open>data\<close> and \<^verbatim>\<open>sender\<close> and acts on the state \<open>'w\<close> of the process,
  where it may raise. The driver, with state \<open>'p\<close>, and \<^verbatim>\<open>pickle\<close> are parameters.
\<close>

type_synonym 'w callback = "pyval \<Rightarrow> pyval \<Rightarrow> 'w \<Rightarrow> exn option \<times> 'w"

record 'p pubsub_env =
  pickle_loads :: "pyval \<Rightarrow> exn + pyval"
  pickle_dumps :: "pyval \<Rightarrow> exn + pyval"
  ps_publish :: "string \<Rightarrow> pyval \<Rightarrow> 'p \<Rightarrow> exn + 'p"
  ps_unsubscribe :: "string \<Rightarrow> 'p \<Rightarrow> exn + 'p"

text \<open>
  The utility's state: \<^verbatim>\<open>_subscribers\<close> (channel to requester id to callback),
  \<^verbatim>\<open>_driver\<close> (\<open>None\<close> until \<^verbatim>\<open>initialize\<close> finds one) and \<^verbatim>\<open>_tasks\<close>, the channels that
  have a relay task.
\<close>

record ('p, 'w) pubsub_utility =
  subscribers :: "(string \<times> (string \<times> 'w callback) list) list"
  driver :: "'p option"
  tasks :: "string list"

text \<open>Python's \<^verbatim>\<open>del d[k]\<close> on a dictionary kept as an association list.\<close>

definition dict_del :: "('k \<times> 'v) list \<Rightarrow> 'k \<Rightarrow> ('k \<times> 'v) list" where
  "dict_del kvs k = filter (\<lambda>kv. fst kv \<noteq> k) kvs"

definition subscribe :: "string \<Rightarrow> string \<Rightarrow> 'w callback \<Rightarrow> ('p, 'w) pubsub_utility
    \<Rightarrow> (exn + unit) \<times> ('p, 'w) pubsub_utility" where
  "subscribe channel_name rid cb s =
     (if driver s = None then (Inl NoPubSubDriver, s)
      else case map_of (subscribers s) channel_name of
        Some cbs \<Rightarrow>
          (Inr (), s\<lparr>subscribers := dict_set (subscribers s) channel_name (dict_set cbs rid cb)\<rparr>)
      | None \<Rightarrow>
          (Inr (), s\<lparr>subscribers := dict_set (subscribers s) channel_name [(rid, cb)],
                     tasks := tasks s @ [channel_name]\<rparr>))"

text \<open>
  \<^verbatim>\<open>unsubscribe\<close>: when the channel's last callback goes, the relay task is cancelled
  and dropped, the driver unsubscribes and the channel is forgotten. \<^verbatim>\<open>self._tasks[channel_name]\<close>
  on a channel without a task is a \<^verbatim>\<open>KeyError\<close>.
\<close>

definition unsubscribe :: "'p pubsub_env \<Rightarrow> string \<Rightarrow> string \<Rightarrow> ('p, 'w) pubsub_utility
    \<Rightarrow> (exn + unit) \<times> ('p, 'w) pubsub_utility" where
  "unsubscribe env channel_name req_id s =
     (case driver s of
        None \<Rightarrow> (Inl NoPubSubDriver, s)
      | Some p \<Rightarrow>
          (case map_of (subscribers s) channel_name of
             None \<Rightarrow> (Inr (), s)
           | Some cbs \<Rightarrow>
               (let cbs1 = dict_del cbs req_id;
                    s1 = s\<lparr>subscribers := dict_set (subscribers s) channel_name cbs1\<rparr>
                in if length cbs1 = 0 then
                     (if channel_name \<in> set (tasks s1) then
                        (let s2 = s1\<lparr>tasks := filter (\<lambda>c. c \<noteq> channel_name) (tasks s1)\<rparr>
                         in case ps_unsubscribe env channel_name p of
                              Inl e \<Rightarrow> (Inl e, s2)
                            | Inr p' \<Rightarrow>
                                (Inr (), s2\<lparr>driver := Some p',
                                           subscribers := dict_del (subscribers s2) channel_name\<rparr>))
                      else (Inl KeyError, s1))
                   else (Inr (), s1))))"

text \<open>
  \<^verbatim>\<open>publish\<close> wraps the data with the requester id and hands the pickle to the driver,
  when there is a driver.
\<close>

definition publish :: "'p pubsub_env \<Rightarrow> string \<Rightarrow> string \<Rightarrow> pyval \<Rightarrow> ('p, 'w) pubsub_utility
    \<Rightarrow> (exn + unit) \<times> ('p, 'w) pubsub_utility" where
  "publish env channel_name rid data_arg s =
     (case driver s of
        None \<Rightarrow> (Inr (), s)
      | Some p \<Rightarrow>
          (case pickle_dumps env (PDict [(''ruid'', PStr rid), (''data'', data_arg)]) of
             Inl e \<Rightarrow> (Inl e, s)
           | Inr msg \<Rightarrow>
               (case ps_publish env channel_name msg p of
                  Inl e \<Rightarrow> (Inl e, s)
                | Inr p' \<Rightarrow> (Inr (), s\<lparr>driver := Some p'\<rparr>))))"

text \<open>
  The relay \<^verbatim>\<open>real_subscribe\<close>, for one message of the channel. The inner loop goes over
  the channel's callbacks: \<^verbatim>\<open>if data.get('ruid') != req: await callback(data=data['data'],
  sender=data['ruid'])\<close>. What a callback raises ends the loop and leaves it.
\<close>

fun dispatch :: "(string \<times> 'w callback) list \<Rightarrow> pyval \<Rightarrow> 'w \<Rightarrow> exn option \<times> 'w" where
  "dispatch [] msg w = (None, w)"
| "dispatch ((req, cb) # rest) (PDict kvs) w =
     (if map_of kvs ''ruid'' \<noteq> Some (PStr req) then
        (case map_of kvs ''data'' of
           None \<Rightarrow> (Some KeyError, w)
         | Some d \<Rightarrow>
             (case map_of kvs ''ruid'' of
                None \<Rightarrow> (Some KeyError, w)
              | Some sender \<Rightarrow>
                  (case cb d sender w of
                     (Some e, w') \<Rightarrow> (Some e, w')
                   | (None, w') \<Rightarrow> dispatch rest (PDict kvs) w')))
      else dispatch rest (PDict kvs) w)"
| "dispatch ((req, cb) # rest) _ w = (Some AttributeError, w)"

text \<open>
  A message that does not unpickle (\<^verbatim>\<open>TypeError\<close>, \<^verbatim>\<open>UnpicklingError\<close>) is skipped with
  a warning; any other failure leaves the loop.
\<close>

definition real_subscribe_message :: "'p pubsub_env \<Rightarrow> (string \<times> 'w callback) list \<Rightarrow> pyval \<Rightarrow> 'w
    \<Rightarrow> exn option \<times> 'w" where
  "real_subscribe_message env cbs msg w =
     (case pickle_loads env msg of
        Inl e \<Rightarrow> if e = TypeError \<or> e = UnpicklingError then (None, w) else (Some e, w)
      | Inr d \<Rightarrow> dispatch cbs d w)"

text \<open>
  \<^verbatim>\<open>CacheUtility.initialize\<close> subscribes the bound method \<^verbatim>\<open>self.invalidate\<close> under the
  utility's \<^verbatim>\<open>_uid\<close>: as a callback, it acts on the cache utility's state.
\<close>

definition invalidate_callback :: "('c, 'r) cache_env \<Rightarrow> ('c, 'r) cache_utility callback" where
  "invalidate_callback env data_arg sender s =
     (case invalidate env data_arg s of
        (Inl e, s') \<Rightarrow> (Some e, s')
      | (Inr _, s') \<Rightarrow> (None, s'))"

section \<open>Vocabulary of the statements\<close>

text \<open>
  What PostgreSQL guarantees of every objects table: the primary key on \<^verbatim>\<open>zoid\<close>, and the
  two references, each to a row of the table.
\<close>

definition primary_key :: "row list \<Rightarrow> bool" where
  "primary_key tbl = distinct (map zoid tbl)"

definition foreign_keys :: "row list \<Rightarrow> bool" where
  "foreign_keys tbl =
     (\<forall>r \<in> set tbl.
        (case parent_id r of Some p \<Rightarrow> p \<in> zoid ` set tbl | None \<Rightarrow> True)
      \<and> (case of_ref r of Some p \<Rightarrow> p \<in> zoid ` set tbl | None \<Rightarrow> True))"

text \<open>The rows that the chunks of a byte stream make, numbered from \<open>i\<close>.\<close>

fun chunk_rows :: "string \<Rightarrow> string \<Rightarrow> int \<Rightarrow> bytes list \<Rightarrow> blob_row list" where
  "chunk_rows b oid i [] = []"
| "chunk_rows b oid i (c # cs) =
     \<lparr>bid = b, blob_zoid = oid, chunk_index = i, data = c\<rparr> # chunk_rows b oid (i + 1) cs"

subsection \<open>A small database\<close>

text \<open>
  A storage with the default settings, and a table with the trash row, a folder
  \<open>root\<close> and its child \<open>doc1\<close>, last written by transaction 2.
\<close>

definition a_storage :: storage where
  "a_storage = \<lparr>store_json = True, autovacuum = True, trashed_id = ''DDDDDDDD''\<rparr>"

definition a_row :: "string \<Rightarrow> int \<Rightarrow> string option \<Rightarrow> string option \<Rightarrow> row" where
  "a_row z t p i =
     \<lparr>zoid = z, tid = t, state_size = 2, part = 0, resource = True, of_ref = None,
      otid = None, parent_id = p, id_key = i, type_name = ''Item'',
      json = Some ''{}'', state = Some [1, 2]\<rparr>"

definition a_db :: db where
  "a_db =
     \<lparr>objects = [trash_row ''DDDDDDDD'',
                 a_row ''root'' 1 None None,
                 a_row ''doc1'' 2 (Some ''root'') (Some ''doc1'')],
      blobs = []\<rparr>"

text \<open>The same table once \<open>doc1\<close> is in the trash.\<close>

definition a_trashed_db :: db where
  "a_trashed_db =
     \<lparr>objects = [trash_row ''DDDDDDDD'',
                 a_row ''root'' 1 None None,
                 a_row ''doc1'' 2 (Some ''DDDDDDDD'') (Some ''doc1'')],
      blobs = []\<rparr>"

text \<open>The first table with one chunk of the blob \<open>blob1\<close>, owned by \<open>doc1\<close>.\<close>

definition a_db_with_chunk :: db where
  "a_db_with_chunk =
     a_db\<lparr>blobs := [\<lparr>bid = ''blob1'', blob_zoid = ''doc1'', chunk_index = 0, data = [9]\<rparr>]\<rparr>"

definition an_obj :: "string \<Rightarrow> obj" where
  "an_obj u = \<lparr>new_marker = False, serial = Some 1, uuid = u\<rparr>"

definition a_new_obj :: "string \<Rightarrow> obj" where
  "a_new_obj u = \<lparr>new_marker = True, serial = None, uuid = u\<rparr>"

definition a_writer :: "string option \<Rightarrow> string option \<Rightarrow> writer" where
  "a_writer p i =
     \<lparr>w_serialize = [3, 4, 5], w_json = ''{}'', w_part = None, w_resource = True,
      w_of = None, w_parent_id = p, w_id = i, w_type = ''Item''\<rparr>"

definition a_txn :: "int \<Rightarrow> (string \<times> obj) list \<Rightarrow> txn" where
  "a_txn t m = \<lparr>txn_tid = t, modified = m, deleted = [], after_commit_hooks = []\<rparr>"

text \<open>A transaction that has modified a thousand objects.\<close>

definition a_large_txn :: txn where
  "a_large_txn =
     a_txn 1 (map (\<lambda>n. (replicate (Suc n) CHR ''x'', an_obj (replicate (Suc n) CHR ''x'')))
                [0..<1000])"

subsection \<open>A small cache and a small bus\<close>

text \<open>
  A local cache and a remote tier to run the utility on: both association lists, with
  no bound and no failure, and a serializer that changes nothing. \<open>a_broken_env\<close> is the
  same with a remote tier that cannot be reached and a decoder that refuses its input.
\<close>

type_synonym simple_cache = "((string \<times> pyval) list, (string \<times> pyval) list) cache_utility"

definition a_cache_env :: "((string \<times> pyval) list, (string \<times> pyval) list) cache_env" where
  "a_cache_env =
     \<lparr>CACHE_PREFIX = ''gcache2-'',
      mc_contains = (\<lambda>k c. map_of c k \<noteq> None),
      mc_getitem = (\<lambda>k c. case map_of c k of None \<Rightarrow> Inl KeyError | Some v \<Rightarrow> Inr (v, c)),
      mc_setitem = (\<lambda>k v c. Inr (dict_set c k v)),
      mc_set = (\<lambda>k v sz c. Inr (dict_set c k v)),
      mc_delitem = (\<lambda>k c. if map_of c k = None then Inl KeyError else Inr (dict_del c k)),
      mc_clear = (\<lambda>c. Inr []),
      drv_get = (\<lambda>k r. Inr (case map_of r k of None \<Rightarrow> PNone | Some v \<Rightarrow> v)),
      drv_set = (\<lambda>k v ttl r. Inr (dict_set r k v)),
      drv_delete = (\<lambda>k r. Inr (dict_del r k)),
      drv_delete_all = (\<lambda>ks r. Inr (filter (\<lambda>kv. fst kv \<notin> set ks) r)),
      drv_flushall = (\<lambda>r. Inr []),
      loads = Inr,
      dumps = Inr,
      getsizeof = (\<lambda>v. 64)\<rparr>"

definition a_cache :: "(string \<times> pyval) list \<Rightarrow> (string \<times> pyval) list option \<Rightarrow> pyval list
    \<Rightarrow> (level \<times> string) list \<Rightarrow> simple_cache" where
  "a_cache c r tids l =
     \<lparr>memory_cache = c, obj_driver = r, ignored_tids = tids, settings_ttl = None, logged = l\<rparr>"


text \<open>
  A driver that keeps what is published, and a pickle that changes nothing; a utility
  with no subscriber; and an invalidation message of transaction 5 for the key \<open>k\<close>,
  in its envelope.
\<close>

definition a_pubsub_env :: "(string \<times> pyval) list pubsub_env" where
  "a_pubsub_env =
     \<lparr>pickle_loads = Inr, pickle_dumps = Inr,
      ps_publish = (\<lambda>c m p. Inr (p @ [(c, m)])),
      ps_unsubscribe = (\<lambda>c p. Inr p)\<rparr>"

definition a_pubsub :: "(string \<times> pyval) list option
    \<Rightarrow> ((string \<times> pyval) list, simple_cache) pubsub_utility" where
  "a_pubsub p = \<lparr>subscribers = [], driver = p, tasks = []\<rparr>"

definition a_message :: "string \<Rightarrow> pyval" where
  "a_message origin =
     PDict [(''ruid'', PStr origin),
            (''data'', PDict [(''tid'', PInt 5), (''keys'', PList [PStr ''k'']), (''push'', PDict [])])]"

section \<open>Conflict detection\<close>

text \<open>
  Claim C6. \<^verbatim>\<open>get_conflicts\<close> returns the records whose TID is greater than the
  transaction's TID, each as its columns \<^verbatim>\<open>zoid, tid, state_size, resource, type, id\<close>. With fewer than 1000 modified OIDs the records are those of the
  modified OIDs only, and a non-empty set is looked up with \<^verbatim>\<open>TXN_CONFLICTS_ON_OIDS\<close>; with
  1000 or more the records are those of the whole table, looked up with \<^verbatim>\<open>TXN_CONFLICTS\<close>.
\<close>

theorem get_conflicts_scan:
  "(length (modified t) < 1000 \<longrightarrow>
      fst (get_conflicts d t) =
        map (\<lambda>r. (zoid r, tid r, state_size r, resource r, type_name r, id_key r))
          (filter (\<lambda>r. tid r > txn_tid t \<and> zoid r \<in> fst ` set (modified t)) (objects d)))
   \<and> (0 < length (modified t) \<and> length (modified t) < 1000 \<longrightarrow>
      snd (get_conflicts d t) = [TXN_CONFLICTS_ON_OIDS (txn_tid t) (map fst (modified t))])
   \<and> (1000 \<le> length (modified t) \<longrightarrow>
      get_conflicts d t =
        (map (\<lambda>r. (zoid r, tid r, state_size r, resource r, type_name r, id_key r))
           (filter (\<lambda>r. tid r > txn_tid t) (objects d)),
         [TXN_CONFLICTS (txn_tid t)]))"
proof -
  have "conflict_columns = (\<lambda>r. (zoid r, tid r, state_size r, resource r, type_name r, id_key r))"
    by (rule ext) (simp add: conflict_columns_def)
  then show ?thesis by (simp add: get_conflicts_def Let_def)
qed

theorem get_conflicts_scan_witness:
  "length (modified (a_txn 1 [(''root'', an_obj ''root'')])) < 1000
   \<and> get_conflicts a_db (a_txn 1 [(''root'', an_obj ''root'')])
       = ([], [TXN_CONFLICTS_ON_OIDS 1 [''root'']])
   \<and> 1000 \<le> length (modified a_large_txn)
   \<and> get_conflicts a_db a_large_txn
       = ([(''doc1'', 2, 2, True, ''Item'', Some ''doc1'')], [TXN_CONFLICTS 1])"
proof -
  have small: "length (modified (a_txn 1 [(''root'', an_obj ''root'')])) = 1"
    by (simp add: a_txn_def)
  have large: "length (modified a_large_txn) = 1000"
    by (simp add: a_large_txn_def a_txn_def)
  have tbl: "filter (\<lambda>r. tid r > 1) (objects a_db)
               = [a_row ''doc1'' 2 (Some ''root'') (Some ''doc1'')]"
    by (simp add: a_db_def a_row_def trash_row_def)
  have tbl': "filter (\<lambda>r. 1 < tid r \<and> zoid r = ''root'') (objects a_db) = []"
    by (simp add: a_db_def a_row_def trash_row_def)
  have t1: "txn_tid (a_txn 1 [(''root'', an_obj ''root'')]) = 1" "txn_tid a_large_txn = 1"
    "modified (a_txn 1 [(''root'', an_obj ''root'')]) = [(''root'', an_obj ''root'')]"
    by (simp_all add: a_large_txn_def a_txn_def)
  from get_conflicts_scan [of "a_txn 1 [(''root'', an_obj ''root'')]" a_db]
  have a: "get_conflicts a_db (a_txn 1 [(''root'', an_obj ''root'')])
             = ([], [TXN_CONFLICTS_ON_OIDS 1 [''root'']])"
    by (simp add: small t1 tbl' prod_eq_iff)
  from get_conflicts_scan [of a_large_txn a_db]
  have b: "get_conflicts a_db a_large_txn
             = ([(''doc1'', 2, 2, True, ''Item'', Some ''doc1'')], [TXN_CONFLICTS 1])"
    by (simp add: large t1 tbl conflict_columns_def a_row_def)
  from a b small large show ?thesis by simp
qed

text \<open>
  Claim C9. When the transaction has modified nothing, \<^verbatim>\<open>get_conflicts\<close> returns the
  empty list and sends no statement, whatever the table holds.
\<close>

theorem get_conflicts_nothing_modified:
  "modified t = [] \<Longrightarrow> get_conflicts d t = ([], [])"
  by (simp add: get_conflicts_def)

theorem get_conflicts_nothing_modified_witness:
  "modified (a_txn 1 []) = []
   \<and> get_conflicts a_db (a_txn 1 []) = ([], [])
   \<and> read_conn_fetch (TXN_CONFLICTS 1) (objects a_db)
       = [(''doc1'', 2, 2, True, ''Item'', Some ''doc1'')]"
proof -
  have m: "modified (a_txn 1 []) = []" by (simp add: a_txn_def)
  have "read_conn_fetch (TXN_CONFLICTS 1) (objects a_db)
       = [(''doc1'', 2, 2, True, ''Item'', Some ''doc1'')]"
    by (simp add: a_db_def a_row_def trash_row_def conflict_columns_def)
  with m get_conflicts_nothing_modified [OF m, of a_db] show ?thesis by simp
qed

section \<open>Optimistic writes\<close>



lemma store_args_sel [simp]:
  "zoid (store_args st oid old_serial wr t) = oid"
  "tid (store_args st oid old_serial wr t) = txn_tid t"
  "otid (store_args st oid old_serial wr t) = old_serial"
  "parent_id (store_args st oid old_serial wr t) = w_parent_id wr"
  "id_key (store_args st oid old_serial wr t) = w_id wr"
  "of_ref (store_args st oid old_serial wr t) = w_of wr"
  by (simp_all add: store_args_def Let_def)

lemma overwrite_miss:
  "\<not> (\<exists>r \<in> set tbl. hit r) \<Longrightarrow> overwrite trashed hit v tbl = (Inr [0], tbl)"
  by (simp add: overwrite_def)

lemma no_hit_of_stale:
  assumes "primary_key tbl" "r \<in> set tbl" "zoid r = oid" "old_serial \<noteq> Some (tid r)"
  shows "\<not> (\<exists>x \<in> set tbl. zoid x = oid \<and> Some (tid x) = old_serial)"
proof
  assume "\<exists>x \<in> set tbl. zoid x = oid \<and> Some (tid x) = old_serial"
  then obtain x where x: "x \<in> set tbl" "zoid x = oid" "Some (tid x) = old_serial" by blast
  from assms(1) have "inj_on zoid (set tbl)" by (simp add: primary_key_def distinct_map)
  with x(1,2) assms(2,3) have "x = r" by (auto dest: inj_onD)
  with x(3) assms(4) show False by simp
qed

lemma store_update_miss:
  assumes "\<not> new_marker ob" "serial ob \<noteq> None"
    and "\<not> (\<exists>x \<in> set (objects d). zoid x = oid \<and> Some (tid x) = old_serial)"
  shows "store st None oid old_serial wr ob (d, t) =
           (Inl (TIDConflictError tid_mismatch_message), d, t)"
proof -
  have "overwrite (trashed_id st) (\<lambda>x. zoid x = oid \<and> Some (tid x) = old_serial) v (objects d)
          = (Inr [0], objects d)" for v
    using assms(3) by (rule overwrite_miss)
  then show ?thesis using assms(1,2)
    by (simp add: store_def conn_fetch_def Let_def)
qed

text \<open>
  Claim C1, as amended. \<^verbatim>\<open>store\<close> takes the conditional \<^verbatim>\<open>UPDATE\<close> for an object that is
  not marked new and has a serial. On a table with its primary key, when the record of
  the OID holds a TID other than \<^verbatim>\<open>old_serial\<close>, the statement writes no row: \<^verbatim>\<open>store\<close> raises
  \<^verbatim>\<open>TIDConflictError\<close> and leaves the tables and the transaction as they were.
\<close>

theorem store_stale_tid:
  assumes "\<not> new_marker ob" "serial ob \<noteq> None"
    and "primary_key (objects d)" "r \<in> set (objects d)" "zoid r = oid"
    and "old_serial \<noteq> Some (tid r)"
  shows "store st None oid old_serial wr ob (d, t) =
           (Inl (TIDConflictError tid_mismatch_message), d, t)"
  using assms(1,2) no_hit_of_stale [OF assms(3-6)] by (rule store_update_miss)

lemma a_db_primary_key: "primary_key (objects a_db)"
  by (simp add: primary_key_def a_db_def a_row_def trash_row_def)

text \<open>
  The scenario of the specification: \<open>doc1\<close> was loaded at TID 1 and has since been
  moved to TID 2 by another writer.
\<close>

theorem store_stale_tid_witness:
  "\<not> new_marker (an_obj ''doc1'') \<and> serial (an_obj ''doc1'') = Some 1
   \<and> primary_key (objects a_db)
   \<and> a_row ''doc1'' 2 (Some ''root'') (Some ''doc1'') \<in> set (objects a_db)
   \<and> store a_storage None ''doc1'' (Some 1) (a_writer (Some ''root'') (Some ''doc1'')) (an_obj ''doc1'')
       (a_db, a_txn 3 [(''doc1'', an_obj ''doc1'')])
     = (Inl (TIDConflictError tid_mismatch_message), a_db, a_txn 3 [(''doc1'', an_obj ''doc1'')])"
proof -
  have h1: "\<not> new_marker (an_obj ''doc1'')" and h2: "serial (an_obj ''doc1'') \<noteq> None"
    and h3: "serial (an_obj ''doc1'') = Some 1"
    by (simp_all add: an_obj_def)
  have h4: "a_row ''doc1'' 2 (Some ''root'') (Some ''doc1'') \<in> set (objects a_db)"
    by (simp add: a_db_def)
  have h5: "zoid (a_row ''doc1'' 2 (Some ''root'') (Some ''doc1'')) = ''doc1''"
    by (simp add: a_row_def)
  have h6: "Some 1 \<noteq> Some (tid (a_row ''doc1'' 2 (Some ''root'') (Some ''doc1'')))"
    by (simp add: a_row_def)
  from store_stale_tid [OF h1 h2 a_db_primary_key h4 h5 h6] h1 h3 a_db_primary_key h4
  show ?thesis by simp
qed

text \<open>
  The claim as first stated, for every call of \<^verbatim>\<open>store\<close> on an existing record, fails on an
  object marked new: \<^verbatim>\<open>store\<close> takes \<^verbatim>\<open>NAIVE_UPSERT\<close>, which overwrites the record of
  \<open>doc1\<close> (TID 2) although the call names TID 0.
\<close>

theorem store_new_marker_overwrites:
  "\<not> (fst (store a_storage None ''doc1'' (Some 0) (a_writer (Some ''root'') (Some ''doc1'')) (a_new_obj ''doc1'')
           (a_db, a_txn 3 [(''doc1'', a_new_obj ''doc1'')])) = Inl (TIDConflictError tid_mismatch_message))
   \<and> store a_storage None ''doc1'' (Some 0) (a_writer (Some ''root'') (Some ''doc1'')) (a_new_obj ''doc1'')
           (a_db, a_txn 3 [(''doc1'', a_new_obj ''doc1'')])
     = (Inr (),
        \<lparr>objects = [trash_row ''DDDDDDDD'', a_row ''root'' 1 None None,
                    \<lparr>zoid = ''doc1'', tid = 3, state_size = 3, part = 0, resource = True,
                     of_ref = None, otid = Some 0, parent_id = Some ''root'',
                     id_key = Some ''doc1'', type_name = ''Item'', json = Some ''{}'',
                     state = Some [3, 4, 5]\<rparr>],
         blobs = []\<rparr>,
        a_txn 3 [(''doc1'', a_new_obj ''doc1'')])"
  by (simp add: store_def conn_fetch_def store_args_def overwrite_def constraint_error_def
      a_storage_def a_db_def a_row_def trash_row_def a_writer_def a_new_obj_def a_txn_def Let_def)












section \<open>Deferred deletion\<close>

lemma delete_cascade_subset: "set (delete_cascade oids tbl) \<subseteq> set tbl"
proof (induction oids tbl rule: delete_cascade.induct)
  case (1 oids tbl)
  show ?case
  proof (cases "\<exists>r \<in> set tbl. zoid r \<in> set oids")
    case True
    let ?rest = "filter (\<lambda>r. zoid r \<notin> set oids) tbl"
    have "delete_cascade oids tbl = delete_cascade (map zoid (filter (refers_to oids) ?rest)) ?rest"
      using True by (subst delete_cascade.simps) (simp add: Let_def)
    moreover have "set (delete_cascade (map zoid (filter (refers_to oids) ?rest)) ?rest) \<subseteq> set ?rest"
      using True by (rule "1.IH") simp
    ultimately show ?thesis by auto
  next
    case False
    then show ?thesis by (subst delete_cascade.simps) simp
  qed
qed

lemma delete_cascade_gone: "oid \<in> set oids \<Longrightarrow> oid \<notin> zoid ` set (delete_cascade oids tbl)"
proof (cases "\<exists>r \<in> set tbl. zoid r \<in> set oids")
  case True
  let ?rest = "filter (\<lambda>r. zoid r \<notin> set oids) tbl"
  assume o: "oid \<in> set oids"
  have "delete_cascade oids tbl = delete_cascade (map zoid (filter (refers_to oids) ?rest)) ?rest"
    using True by (subst delete_cascade.simps) (simp add: Let_def)
  moreover have "set (delete_cascade (map zoid (filter (refers_to oids) ?rest)) ?rest) \<subseteq> set ?rest"
    by (rule delete_cascade_subset)
  ultimately have "set (delete_cascade oids tbl) \<subseteq> set ?rest"
    by (simp only:)
  with o show ?thesis by auto
next
  case False
  assume "oid \<in> set oids"
  with False show ?thesis by (subst delete_cascade.simps) auto
qed

lemma find_zoid:
  assumes "distinct (map zoid tbl)" "r \<in> set tbl"
  shows "find (\<lambda>x. zoid x = zoid r) tbl = Some r"
  using assms by (induction tbl) (auto simp: image_iff)

lemma trash_parent_id_ok:
  assumes "primary_key tbl" "foreign_keys tbl" "r \<in> set tbl" "zoid r = oid"
    and "oid \<noteq> trashed" "trashed \<in> zoid ` set tbl"
  shows "trash_parent_id trashed oid tbl =
           (None, map (\<lambda>x. if zoid x = oid then x\<lparr>parent_id := Some trashed\<rparr> else x) tbl)"
proof -
  have f: "find (\<lambda>x. zoid x = oid) tbl = Some r"
    using assms(1,3,4) find_zoid [of tbl r] by (simp add: primary_key_def)
  have z: "zoid ` set (filter (\<lambda>x. zoid x \<noteq> oid) tbl) = zoid ` set tbl - {oid}"
    by auto
  have p: "trashed \<in> zoid ` set tbl - {oid}" using assms(5,6) by simp
  have o: "case of_ref r of Some q \<Rightarrow> q \<in> zoid ` set tbl | None \<Rightarrow> True"
    using assms(2,3) by (simp add: foreign_keys_def)
  have "constraint_error trashed (r\<lparr>parent_id := Some trashed\<rparr>) (filter (\<lambda>x. zoid x \<noteq> oid) tbl) = None"
    using assms(4,5) p o
    by (auto simp add: constraint_error_def z split: option.splits)
  with f show ?thesis by (simp add: trash_parent_id_def)
qed


lemma map_trash_get_child:
  assumes "p \<noteq> trashed"
  shows "find (\<lambda>x. parent_id x = Some p \<and> id_key x = Some i)
           (map (\<lambda>x. if zoid x = oid then x\<lparr>parent_id := Some trashed\<rparr> else x) tbl) = Some c
         \<Longrightarrow> zoid c \<noteq> oid"
  using assms by (induction tbl) (auto split: if_splits)

text \<open>
  Claim C5, as amended. On a table with its primary key, its references and its trash
  row, take a record \<open>r\<close> of the OID whose parent \<open>p\<close> is not the trash. Then \<^verbatim>\<open>delete\<close>
  returns normally and does nothing but write the trash sentinel into the record's
  \<^verbatim>\<open>parent_id\<close>; it adds the hook that queues the OID for the vacuum when the storage has
  \<^verbatim>\<open>autovacuum\<close> on, and adds nothing when it is off. After it \<^verbatim>\<open>get_child\<close> under \<open>p\<close> returns
  the record for no name, the row is still in the table and among the rows of
  \<^verbatim>\<open>GET_TRASHED_OBJECTS\<close>, and once the vacuum has run on the OID it is in neither.
\<close>

theorem delete_reparents:
  assumes "primary_key (objects d)" "foreign_keys (objects d)"
    and "r \<in> set (objects d)" "zoid r = oid" "parent_id r = Some p"
    and "p \<noteq> trashed_id st" "oid \<noteq> trashed_id st"
    and "trashed_id st \<in> zoid ` set (objects d)"
    and "delete st oid (d, t) = (res, d', t')"
  shows "res = Inr ()
       \<and> objects d' = map (\<lambda>x. if zoid x = oid then x\<lparr>parent_id := Some (trashed_id st)\<rparr> else x) (objects d)
       \<and> blobs d' = blobs d
       \<and> t' = (if autovacuum st
               then t\<lparr>after_commit_hooks := after_commit_hooks t @ [Txn_oid_commit_hook oid]\<rparr>
               else t)
       \<and> (\<forall>i. case get_child d' p i of Some c \<Rightarrow> fst c \<noteq> oid | None \<Rightarrow> True)
       \<and> oid \<in> zoid ` set (objects d')
       \<and> oid \<in> set (get_trashed_objects (trashed_id st) d')
       \<and> oid \<notin> zoid ` set (objects (vacuum oid d'))
       \<and> oid \<notin> set (get_trashed_objects (trashed_id st) (vacuum oid d'))"
proof -
  let ?tbl' = "map (\<lambda>x. if zoid x = oid then x\<lparr>parent_id := Some (trashed_id st)\<rparr> else x) (objects d)"
  have tp: "trash_parent_id (trashed_id st) oid (objects d) = (None, ?tbl')"
    using assms(1-4,7,8) by (rule trash_parent_id_ok)
  have res: "res = Inr ()" and d': "d' = d\<lparr>objects := ?tbl'\<rparr>"
    and t': "t' = (if autovacuum st
               then t\<lparr>after_commit_hooks := after_commit_hooks t @ [Txn_oid_commit_hook oid]\<rparr>
               else t)"
    using assms(9) by (simp_all add: delete_def tp Let_def)
  have o: "objects d' = ?tbl'" and b: "blobs d' = blobs d" by (simp_all add: d')
  have child: "\<forall>i. case get_child d' p i of Some c \<Rightarrow> fst c \<noteq> oid | None \<Rightarrow> True"
  proof
    fix i
    show "case get_child d' p i of Some c \<Rightarrow> fst c \<noteq> oid | None \<Rightarrow> True"
      using map_trash_get_child [OF assms(6), of i oid "objects d"]
      by (auto simp: get_child_def o child_columns_def split: option.splits)
  qed
  have row: "r\<lparr>parent_id := Some (trashed_id st)\<rparr> \<in> set ?tbl'"
    using assms(3,4) by (auto simp: image_iff intro!: bexI [of _ r])
  have here: "oid \<in> zoid ` set (objects d')"
    unfolding o using row by (rule image_eqI [rotated]) (simp add: assms(4))
  have "r\<lparr>parent_id := Some (trashed_id st)\<rparr>
          \<in> set (filter (\<lambda>x. parent_id x = Some (trashed_id st)) ?tbl')"
    using row by simp
  then have trashed: "oid \<in> set (get_trashed_objects (trashed_id st) d')"
    unfolding get_trashed_objects_def o set_map by (rule image_eqI [rotated]) (simp add: assms(4))
  have gone: "oid \<notin> zoid ` set (objects (vacuum oid d'))"
    by (simp add: vacuum_def delete_object_def Let_def delete_cascade_gone)
  then have gone': "oid \<notin> set (get_trashed_objects (trashed_id st) (vacuum oid d'))"
    by (auto simp: get_trashed_objects_def)
  from res o b t' child here trashed gone gone' show ?thesis by blast
qed


lemma a_db_foreign_keys: "foreign_keys (objects a_db)"
  by (simp add: foreign_keys_def a_db_def a_row_def trash_row_def)

lemma delete_doc1:
  "delete st ''doc1'' (a_db, a_txn 3 []) =
     (Inr (), a_trashed_db,
      if autovacuum st
      then (a_txn 3 [])\<lparr>after_commit_hooks := [Txn_oid_commit_hook ''doc1'']\<rparr>
      else a_txn 3 [])"
  if "trashed_id st = ''DDDDDDDD''"
  using that
  by (simp add: delete_def trash_parent_id_def constraint_error_def a_db_def a_trashed_db_def
      a_row_def trash_row_def a_txn_def Let_def)

theorem delete_reparents_witness:
  "primary_key (objects a_db) \<and> foreign_keys (objects a_db)
   \<and> get_child a_db ''root'' ''doc1'' = Some (''doc1'', 2, 2, True, ''Item'', Some [1, 2], Some ''doc1'')
   \<and> delete a_storage ''doc1'' (a_db, a_txn 3 [])
       = (Inr (), a_trashed_db,
          (a_txn 3 [])\<lparr>after_commit_hooks := [Txn_oid_commit_hook ''doc1'']\<rparr>)
   \<and> get_child a_trashed_db ''root'' ''doc1'' = None
   \<and> ''doc1'' \<in> zoid ` set (objects a_trashed_db)
   \<and> ''doc1'' \<in> set (get_trashed_objects ''DDDDDDDD'' a_trashed_db)
   \<and> ''doc1'' \<notin> zoid ` set (objects (vacuum ''doc1'' a_trashed_db))
   \<and> ''doc1'' \<notin> set (get_trashed_objects ''DDDDDDDD'' (vacuum ''doc1'' a_trashed_db))"
proof -
  have tr: "trashed_id a_storage = ''DDDDDDDD''" and av: "autovacuum a_storage"
    by (simp_all add: a_storage_def)
  have del: "delete a_storage ''doc1'' (a_db, a_txn 3 [])
       = (Inr (), a_trashed_db,
          (a_txn 3 [])\<lparr>after_commit_hooks := [Txn_oid_commit_hook ''doc1'']\<rparr>)"
    using delete_doc1 [OF tr] av by simp
  have r: "a_row ''doc1'' 2 (Some ''root'') (Some ''doc1'') \<in> set (objects a_db)"
    by (simp add: a_db_def)
  have z: "zoid (a_row ''doc1'' 2 (Some ''root'') (Some ''doc1'')) = ''doc1''"
    and p: "parent_id (a_row ''doc1'' 2 (Some ''root'') (Some ''doc1'')) = Some ''root''"
    by (simp_all add: a_row_def)
  have n1: "''root'' \<noteq> trashed_id a_storage" and n2: "''doc1'' \<noteq> trashed_id a_storage"
    and t: "trashed_id a_storage \<in> zoid ` set (objects a_db)"
    by (simp_all add: a_storage_def a_db_def trash_row_def)
  have before: "get_child a_db ''root'' ''doc1''
      = Some (''doc1'', 2, 2, True, ''Item'', Some [1, 2], Some ''doc1'')"
    by (simp add: get_child_def child_columns_def a_db_def a_row_def trash_row_def)
  have after: "get_child a_trashed_db ''root'' ''doc1'' = None"
    by (simp add: get_child_def a_trashed_db_def a_row_def trash_row_def)
  note d = delete_reparents [OF a_db_primary_key a_db_foreign_keys r z p n1 n2 t del]
  from d have c1: "''doc1'' \<in> zoid ` set (objects a_trashed_db)" by blast
  from d have c2: "''doc1'' \<in> set (get_trashed_objects (trashed_id a_storage) a_trashed_db)"
    by blast
  from d have c3: "''doc1'' \<notin> zoid ` set (objects (vacuum ''doc1'' a_trashed_db))" by blast
  from d have c4: "''doc1'' \<notin> set (get_trashed_objects (trashed_id a_storage)
                                     (vacuum ''doc1'' a_trashed_db))"
    by blast
  show ?thesis
    using a_db_primary_key a_db_foreign_keys before del after c1 c2 [unfolded tr] c3
      c4 [unfolded tr]
    by (intro conjI)
qed

text \<open>
  The claim as first stated has every \<^verbatim>\<open>delete\<close> schedule the vacuum. A storage built with
  \<^verbatim>\<open>autovacuum=False\<close> reparents the record and leaves the transaction's hooks empty.
\<close>

theorem delete_without_autovacuum_adds_no_hook:
  "delete (a_storage\<lparr>autovacuum := False\<rparr>) ''doc1'' (a_db, a_txn 3 [])
     = (Inr (), a_trashed_db, a_txn 3 [])
   \<and> after_commit_hooks (a_txn 3 []) = []"
proof -
  have "trashed_id (a_storage\<lparr>autovacuum := False\<rparr>) = ''DDDDDDDD''"
    by (simp add: a_storage_def)
  from delete_doc1 [OF this] show ?thesis by (simp add: a_txn_def)
qed

section \<open>Blob chunks\<close>

lemma has_object_stub:
  "oid \<in> zoid ` set (objects (case has_object oid (objects d) of
                  None \<Rightarrow> d\<lparr>objects := objects d @ [stub_row oid]\<rparr>
                | Some _ \<Rightarrow> d))"
proof (cases "find (\<lambda>r. zoid r = oid) (objects d)")
  case None
  then show ?thesis by (simp add: has_object_def stub_row_def)
next
  case (Some r)
  then have "r \<in> set (objects d)" "zoid r = oid"
    by (auto simp: find_Some_iff)
  then show ?thesis using Some by (auto simp: has_object_def)
qed

lemma blobs_stub:
  "blobs (case has_object oid (objects d) of
                  None \<Rightarrow> d\<lparr>objects := objects d @ [stub_row oid]\<rparr>
                | Some _ \<Rightarrow> d) = blobs d"
  by (simp split: option.splits)

lemma write_blob_chunk_fresh:
  assumes "\<forall>r \<in> set (blobs d). bid r = b \<longrightarrow> chunk_index r < i"
  shows "\<exists>d'. write_blob_chunk b oid i c d = (Inr (), d')
            \<and> blobs d' = blobs d @ [\<lparr>bid = b, blob_zoid = oid, chunk_index = i, data = c\<rparr>]"
proof -
  let ?d1 = "case has_object oid (objects d) of
                  None \<Rightarrow> d\<lparr>objects := objects d @ [stub_row oid]\<rparr>
                | Some _ \<Rightarrow> d"
  have "insert_blob_chunk \<lparr>bid = b, blob_zoid = oid, chunk_index = i, data = c\<rparr> ?d1
          = (None, blobs d @ [\<lparr>bid = b, blob_zoid = oid, chunk_index = i, data = c\<rparr>])"
    unfolding insert_blob_chunk_def blobs_stub using assms has_object_stub [of oid d]
    by auto
  then show ?thesis by (simp add: write_blob_chunk_def Let_def)
qed

lemma write_chunks_fresh:
  assumes "\<forall>r \<in> set (blobs d). bid r = b \<longrightarrow> chunk_index r < i"
  shows "\<exists>d'. write_chunks b oid i cs d = (Inr (), d')
            \<and> blobs d' = blobs d @ chunk_rows b oid i cs"
  using assms
proof (induction cs arbitrary: i d)
  case Nil
  then show ?case by simp
next
  case (Cons c cs)
  from write_blob_chunk_fresh [OF Cons.prems] obtain d1 where
    w: "write_blob_chunk b oid i c d = (Inr (), d1)"
    and b1: "blobs d1 = blobs d @ [\<lparr>bid = b, blob_zoid = oid, chunk_index = i, data = c\<rparr>]"
    by blast
  have "\<forall>r \<in> set (blobs d1). bid r = b \<longrightarrow> chunk_index r < i + 1"
    using Cons.prems by (auto simp: b1)
  from Cons.IH [OF this] obtain d' where
    "write_chunks b oid (i + 1) cs d1 = (Inr (), d')"
    "blobs d' = blobs d1 @ chunk_rows b oid (i + 1) cs"
    by blast
  then show ?case using w b1 by simp
qed

lemma find_chunk_rows:
  "j < length cs \<Longrightarrow>
     find (\<lambda>r. bid r = b \<and> chunk_index r = i + int j) (chunk_rows b oid i cs)
       = Some \<lparr>bid = b, blob_zoid = oid, chunk_index = i + int j, data = cs ! j\<rparr>"
proof (induction cs arbitrary: i j)
  case Nil
  then show ?case by simp
next
  case (Cons c cs)
  show ?case
  proof (cases j)
    case 0
    then show ?thesis by simp
  next
    case (Suc k)
    with Cons.prems have "k < length cs" by simp
    from Cons.IH [OF this, of "i + 1"] show ?thesis using Suc by (simp add: add.assoc)
  qed
qed

lemma find_skip:
  "\<forall>r \<in> set pre. \<not> P r \<Longrightarrow> find P (pre @ xs) = find P xs"
  by (induction pre) auto


text \<open>
  Claim C7, as amended. For a blob id that has no chunk in the table yet, the chunks of a byte
  stream written with \<^verbatim>\<open>write_blob_chunk\<close> at the indices \<open>0, ..., N - 1\<close> are all
  written, \<^verbatim>\<open>read_blob_chunk\<close> at the index \<open>i\<close> returns the \<open>i\<close>-th chunk, and the chunks
  read in the order of the indices, put end to end, are the byte stream.
\<close>

theorem blob_round_trip:
  assumes "\<forall>r \<in> set (blobs d). bid r \<noteq> b"
  shows "fst (write_chunks b oid 0 cs d) = Inr ()
       \<and> map (map_option data) (read_chunks b (length cs) (snd (write_chunks b oid 0 cs d)))
           = map Some cs
       \<and> concat (map (\<lambda>r. case r of Some x \<Rightarrow> data x | None \<Rightarrow> [])
                     (read_chunks b (length cs) (snd (write_chunks b oid 0 cs d))))
           = concat cs"
proof -
  have "\<forall>r \<in> set (blobs d). bid r = b \<longrightarrow> chunk_index r < 0" using assms by auto
  from write_chunks_fresh [OF this] obtain d' where
    w: "write_chunks b oid 0 cs d = (Inr (), d')"
    and bl: "blobs d' = blobs d @ chunk_rows b oid 0 cs"
    by blast
  have rd: "read_blob_chunk b (int j) d'
              = Some \<lparr>bid = b, blob_zoid = oid, chunk_index = int j, data = cs ! j\<rparr>"
    if "j < length cs" for j
  proof -
    have "\<forall>r \<in> set (blobs d). \<not> (bid r = b \<and> chunk_index r = int j)" using assms by auto
    then have "read_blob_chunk b (int j) d'
                 = find (\<lambda>r. bid r = b \<and> chunk_index r = int j) (chunk_rows b oid 0 cs)"
      unfolding read_blob_chunk_def bl by (rule find_skip)
    with find_chunk_rows [OF that, of b 0 oid] show ?thesis by simp
  qed
  have all: "read_chunks b (length cs) d'
      = map (\<lambda>j. Some \<lparr>bid = b, blob_zoid = oid, chunk_index = int j, data = cs ! j\<rparr>) [0..<length cs]"
    unfolding read_chunks_def
  proof (rule map_cong)
    show "[0..<length cs] = [0..<length cs]" by (rule refl)
  next
    fix j assume "j \<in> set [0..<length cs]"
    then have "j < length cs" by simp
    then show "read_blob_chunk b (int j) d'
      = Some \<lparr>bid = b, blob_zoid = oid, chunk_index = int j, data = cs ! j\<rparr>" by (rule rd)
  qed
  have m: "map (map_option data) (read_chunks b (length cs) d') = map Some cs"
    unfolding all by (intro nth_equalityI) simp_all
  have "map (\<lambda>r. case r of Some x \<Rightarrow> data x | None \<Rightarrow> []) (read_chunks b (length cs) d') = cs"
    unfolding all by (intro nth_equalityI) simp_all
  then have "concat (map (\<lambda>r. case r of Some x \<Rightarrow> data x | None \<Rightarrow> [])
                        (read_chunks b (length cs) d')) = concat cs" by simp
  with w m show ?thesis by simp
qed

theorem blob_round_trip_witness:
  "blobs a_db = []
   \<and> fst (write_chunks ''blob1'' ''doc2'' 0 [[1, 2], [3], [4, 5, 6]] a_db) = Inr ()
   \<and> concat (map (\<lambda>r. case r of Some x \<Rightarrow> data x | None \<Rightarrow> [])
                 (read_chunks ''blob1'' 3
                    (snd (write_chunks ''blob1'' ''doc2'' 0 [[1, 2], [3], [4, 5, 6]] a_db))))
       = [1, 2, 3, 4, 5, 6]"
proof -
  have e: "blobs a_db = []" by (simp add: a_db_def)
  then have "\<forall>r \<in> set (blobs a_db). bid r \<noteq> ''blob1''" by simp
  note rt = blob_round_trip [OF this, of "''doc2''" "[[1, 2], [3], [4, 5, 6]]"]
  have l: "length [[1, 2], [3], [4, 5, 6 :: 8 word]] = 3" by simp
  have c: "concat [[1, 2], [3], [4, 5, 6 :: 8 word]] = [1, 2, 3, 4, 5, 6]" by simp
  from rt have w: "fst (write_chunks ''blob1'' ''doc2'' 0 [[1, 2], [3], [4, 5, 6]] a_db) = Inr ()"
    by blast
  from rt have "concat (map (\<lambda>r. case r of Some x \<Rightarrow> data x | None \<Rightarrow> [])
                 (read_chunks ''blob1'' (length [[1, 2], [3], [4, 5, 6 :: 8 word]])
                    (snd (write_chunks ''blob1'' ''doc2'' 0 [[1, 2], [3], [4, 5, 6]] a_db))))
       = concat [[1, 2], [3], [4, 5, 6 :: 8 word]]"
    by blast
  then have "concat (map (\<lambda>r. case r of Some x \<Rightarrow> data x | None \<Rightarrow> [])
                 (read_chunks ''blob1'' 3
                    (snd (write_chunks ''blob1'' ''doc2'' 0 [[1, 2], [3], [4, 5, 6]] a_db))))
       = [1, 2, 3, 4, 5, 6]"
    unfolding l c .
  with e w show ?thesis by (intro conjI)
qed


text \<open>
  The claim as first stated is for every blob id. The key of the blobs table is
  \<^verbatim>\<open>(bid, zoid, chunk_index)\<close> and \<^verbatim>\<open>READ_BLOB_CHUNK\<close> selects by \<^verbatim>\<open>bid\<close> and \<^verbatim>\<open>chunk_index\<close>
  only. With a chunk 0 of \<open>blob1\<close> already in the table under the owner \<open>doc1\<close>, the
  two chunks of the stream \<open>[1, 2, 3]\<close> are written under the owner \<open>doc2\<close> without an
  error, and the chunks read back are \<open>[9, 3]\<close>.
\<close>

theorem blob_id_of_another_owner:
  "fst (write_chunks ''blob1'' ''doc2'' 0 [[1, 2], [3]] a_db_with_chunk) = Inr ()
   \<and> concat (map (\<lambda>r. case r of Some x \<Rightarrow> data x | None \<Rightarrow> [])
                 (read_chunks ''blob1'' 2
                    (snd (write_chunks ''blob1'' ''doc2'' 0 [[1, 2], [3]] a_db_with_chunk))))
       = [9, 3]
   \<and> concat [[1, 2], [3 :: 8 word]] = [1, 2, 3]"
  by (simp add: write_blob_chunk_def has_object_def insert_blob_chunk_def stub_row_def
      read_chunks_def read_blob_chunk_def a_db_with_chunk_def a_db_def a_row_def trash_row_def
      Let_def upt_conv_Cons)

section \<open>Reading through the cache\<close>

text \<open>
  Claim C3. What \<^verbatim>\<open>get\<close> returns: the locally cached value on a local hit, and
  \<^verbatim>\<open>None\<close> on every local miss. On a local miss with a value in the remote tier the
  method decodes the value and stores it in the local cache, and then reaches its end
  without a \<^verbatim>\<open>return\<close>: the claim's second case, that \<^verbatim>\<open>get\<close> returns the decoded value,
  does not hold of the code.
\<close>

theorem cache_get_returns:
  "(mc_contains env key (memory_cache s) \<and> mc_getitem env key (memory_cache s) = Inr (v, c)
      \<longrightarrow> fst (cache_get env key s) = Inr v)
   \<and> (\<not> mc_contains env key (memory_cache s) \<longrightarrow> fst (cache_get env key s) = Inr PNone)"
  by (auto simp: cache_get_def cache_get_try_def logger_def Let_def split: sum.splits option.splits)

text \<open>
  The failing input: the key \<open>k\<close> is not in the local cache and the remote tier holds
  \<open>v\<close> for it. \<^verbatim>\<open>get\<close> logs the remote hit, fills the local cache and returns \<^verbatim>\<open>None\<close>.
\<close>

theorem cache_get_returns_witness:
  "\<not> mc_contains a_cache_env ''k'' (memory_cache (a_cache [] (Some [(''gcache2-k'', PStr ''v'')]) [] []))
   \<and> drv_get a_cache_env (CACHE_PREFIX a_cache_env @ ''k'') [(''gcache2-k'', PStr ''v'')] = Inr (PStr ''v'')
   \<and> cache_get a_cache_env ''k'' (a_cache [] (Some [(''gcache2-k'', PStr ''v'')]) [] [])
       = (Inr PNone,
          a_cache [(''k'', PStr ''v'')] (Some [(''gcache2-k'', PStr ''v'')]) []
            [(INFO, ''Retrieved k from redis cache'')])"
proof -
  have m: "\<not> mc_contains a_cache_env ''k''
             (memory_cache (a_cache [] (Some [(''gcache2-k'', PStr ''v'')]) [] []))"
    by (simp add: a_cache_env_def a_cache_def)
  have r: "drv_get a_cache_env (CACHE_PREFIX a_cache_env @ ''k'') [(''gcache2-k'', PStr ''v'')]
             = Inr (PStr ''v'')"
    by (simp add: a_cache_env_def)
  have s: "snd (cache_get a_cache_env ''k'' (a_cache [] (Some [(''gcache2-k'', PStr ''v'')]) [] []))
       = a_cache [(''k'', PStr ''v'')] (Some [(''gcache2-k'', PStr ''v'')]) []
            [(INFO, ''Retrieved k from redis cache'')]"
    by (simp add: cache_get_def cache_get_try_def logger_def a_cache_env_def a_cache_def Let_def)
  from cache_get_returns [of a_cache_env "''k''" "a_cache [] (Some [(''gcache2-k'', PStr ''v'')]) [] []"] m
  have "fst (cache_get a_cache_env ''k'' (a_cache [] (Some [(''gcache2-k'', PStr ''v'')]) [] []))
          = Inr PNone" by blast
  with s have "cache_get a_cache_env ''k'' (a_cache [] (Some [(''gcache2-k'', PStr ''v'')]) [] [])
       = (Inr PNone,
          a_cache [(''k'', PStr ''v'')] (Some [(''gcache2-k'', PStr ''v'')]) []
            [(INFO, ''Retrieved k from redis cache'')])"
    by (simp add: prod_eq_iff)
  with m r show ?thesis by (intro conjI)
qed

section \<open>Exceptions in the cache\<close>










section \<open>Invalidation messages\<close>

lemma dispatch_skips_origin:
  "map_of kvs ''ruid'' = Some (PStr rid) \<Longrightarrow>
     dispatch (filter (\<lambda>rc. fst rc \<noteq> rid) cbs) (PDict kvs) w = dispatch cbs (PDict kvs) w"
proof (induction cbs arbitrary: w)
  case Nil
  then show ?case by simp
next
  case (Cons rc cbs)
  obtain req cb where rc: "rc = (req, cb)" by (cases rc)
  show ?case
  proof (cases "req = rid")
    case True
    then show ?thesis using Cons by (simp add: rc)
  next
    case False
    then show ?thesis using Cons
      by (auto simp: rc split: option.splits prod.splits)
  qed
qed

lemma dispatch_only_origin:
  "map_of kvs ''ruid'' = Some (PStr rid) \<Longrightarrow> dispatch [(rid, cb)] (PDict kvs) w = (None, w)"
  by simp

lemma invalidate_ignored:
  assumes "d = PDict kvs \<or> ((d = PBytes x \<or> d = PStr y) \<and> loads env d = Inr (PDict kvs))"
    and "map_of kvs ''tid'' = Some t" "map_of kvs ''keys'' = Some ks"
    and "t \<in> set (ignored_tids s)"
  shows "invalidate env d s = (Inr (), s\<lparr>ignored_tids := remove1 t (ignored_tids s)\<rparr>)"
  using assms by (auto simp: invalidate_def invalidate_decode_def)

text \<open>
  Claim C8. The relay does not call a callback registered under the requester id that
  the message names as its origin: the message is handled as if those callbacks were
  not subscribed, and a process whose only callback is its own is left as it was.
  And \<^verbatim>\<open>invalidate\<close>, on a message with \<^verbatim>\<open>tid\<close> and \<^verbatim>\<open>keys\<close> whose \<^verbatim>\<open>tid\<close> is in the list
  of ignored tids, returns with the local cache untouched, having removed the first
  occurrence of the tid from the list.
\<close>

theorem self_invalidation_suppressed:
  "(pickle_loads penv msg = Inr (PDict kvs) \<and> map_of kvs ''ruid'' = Some (PStr rid) \<longrightarrow>
      real_subscribe_message penv cbs msg w
        = real_subscribe_message penv (filter (\<lambda>rc. fst rc \<noteq> rid) cbs) msg w
      \<and> real_subscribe_message penv [(rid, cb)] msg w = (None, w))
   \<and> ((d = PDict dkvs \<or> ((d = PBytes x \<or> d = PStr y) \<and> loads env d = Inr (PDict dkvs)))
      \<and> map_of dkvs ''tid'' = Some t \<and> map_of dkvs ''keys'' = Some ks
      \<and> t \<in> set (ignored_tids s) \<longrightarrow>
      invalidate env d s = (Inr (), s\<lparr>ignored_tids := remove1 t (ignored_tids s)\<rparr>)
      \<and> memory_cache (snd (invalidate env d s)) = memory_cache s)"
proof (intro conjI impI)
  assume a: "pickle_loads penv msg = Inr (PDict kvs) \<and> map_of kvs ''ruid'' = Some (PStr rid)"
  then show "real_subscribe_message penv cbs msg w
        = real_subscribe_message penv (filter (\<lambda>rc. fst rc \<noteq> rid) cbs) msg w"
    by (simp add: real_subscribe_message_def dispatch_skips_origin)
  from a show "real_subscribe_message penv [(rid, cb)] msg w = (None, w)"
    by (simp add: real_subscribe_message_def)
next
  assume b: "(d = PDict dkvs \<or> ((d = PBytes x \<or> d = PStr y) \<and> loads env d = Inr (PDict dkvs)))
      \<and> map_of dkvs ''tid'' = Some t \<and> map_of dkvs ''keys'' = Some ks
      \<and> t \<in> set (ignored_tids s)"
  then show i: "invalidate env d s = (Inr (), s\<lparr>ignored_tids := remove1 t (ignored_tids s)\<rparr>)"
    by (intro invalidate_ignored [of d dkvs x y env t ks]) simp_all
  show "memory_cache (snd (invalidate env d s)) = memory_cache s"
    by (simp add: i)
qed

theorem self_invalidation_suppressed_witness:
  "real_subscribe_message a_pubsub_env [(''uid1'', invalidate_callback a_cache_env)]
       (a_message ''uid1'') (a_cache [(''k'', PStr ''v'')] None [PInt 5] [])
     = (None, a_cache [(''k'', PStr ''v'')] None [PInt 5] [])
   \<and> real_subscribe_message a_pubsub_env [(''uid1'', invalidate_callback a_cache_env)]
       (a_message ''uid2'') (a_cache [(''k'', PStr ''v'')] None [] [])
     = (None, a_cache [] None [] [])
   \<and> invalidate a_cache_env
        (PDict [(''tid'', PInt 5), (''keys'', PList [PStr ''k'']), (''push'', PDict [])])
        (a_cache [(''k'', PStr ''v'')] None [PInt 5] [])
     = (Inr (), a_cache [(''k'', PStr ''v'')] None [] [])"
proof -
  let ?d = "[(''tid'', PInt 5), (''keys'', PList [PStr ''k'']), (''push'', PDict [])]"
  let ?kvs = "[(''ruid'', PStr ''uid1''), (''data'', PDict ?d)]"
  let ?s = "a_cache [(''k'', PStr ''v'')] None [PInt 5] []"
  have l: "pickle_loads a_pubsub_env (a_message ''uid1'') = Inr (PDict ?kvs)"
    by (simp add: a_pubsub_env_def a_message_def)
  have r: "map_of ?kvs ''ruid'' = Some (PStr ''uid1'')" by simp
  have ig: "PInt 5 \<in> set (ignored_tids ?s)" by (simp add: a_cache_def)
  have rm: "?s\<lparr>ignored_tids := remove1 (PInt 5) (ignored_tids ?s)\<rparr>
              = a_cache [(''k'', PStr ''v'')] None [] []"
    by (simp add: a_cache_def)
  note th = self_invalidation_suppressed [of a_pubsub_env "a_message ''uid1''" ?kvs "''uid1''"
      "[(''uid1'', invalidate_callback a_cache_env)]" ?s "invalidate_callback a_cache_env"
      "PDict ?d" ?d _ _ a_cache_env "PInt 5" "PList [PStr ''k'']" ?s]
  from th l r have 1: "real_subscribe_message a_pubsub_env [(''uid1'', invalidate_callback a_cache_env)]
       (a_message ''uid1'') ?s = (None, ?s)"
    by blast
  have 2: "real_subscribe_message a_pubsub_env [(''uid1'', invalidate_callback a_cache_env)]
       (a_message ''uid2'') (a_cache [(''k'', PStr ''v'')] None [] [])
     = (None, a_cache [] None [] [])"
    by (simp add: real_subscribe_message_def a_pubsub_env_def a_message_def invalidate_callback_def
        invalidate_def invalidate_decode_def push_items_def a_cache_env_def a_cache_def dict_del_def
        trim_ignored_tids.simps)
  from th ig have "invalidate a_cache_env (PDict ?d) ?s
      = (Inr (), ?s\<lparr>ignored_tids := remove1 (PInt 5) (ignored_tids ?s)\<rparr>)"
    by simp
  then have 3: "invalidate a_cache_env (PDict ?d) ?s = (Inr (), a_cache [(''k'', PStr ''v'')] None [] [])"
    unfolding rm .
  from 1 2 3 show ?thesis by (intro conjI)
qed

section \<open>A pubsub utility without a driver\<close>

text \<open>
  Claim C10. Without a driver, \<^verbatim>\<open>publish\<close> returns normally and changes nothing, while
  \<^verbatim>\<open>subscribe\<close> and \<^verbatim>\<open>unsubscribe\<close> raise \<^verbatim>\<open>NoPubSubDriver\<close>.
\<close>

theorem no_pubsub_driver:
  "driver s = None \<Longrightarrow>
     publish penv channel_name rid d s = (Inr (), s)
     \<and> subscribe channel_name rid cb s = (Inl NoPubSubDriver, s)
     \<and> unsubscribe penv channel_name rid s = (Inl NoPubSubDriver, s)"
  by (simp add: publish_def subscribe_def unsubscribe_def)

theorem no_pubsub_driver_witness:
  "driver (a_pubsub None) = None
   \<and> publish a_pubsub_env ''invalidation'' ''uid1'' (PDict [(''keys'', PList [])]) (a_pubsub None)
       = (Inr (), a_pubsub None)
   \<and> subscribe ''invalidation'' ''uid1'' (invalidate_callback a_cache_env) (a_pubsub None)
       = (Inl NoPubSubDriver, a_pubsub None)
   \<and> unsubscribe a_pubsub_env ''invalidation'' ''uid1'' (a_pubsub None)
       = (Inl NoPubSubDriver, a_pubsub None)
   \<and> publish a_pubsub_env ''invalidation'' ''uid1'' (PDict [(''keys'', PList [])]) (a_pubsub (Some []))
       = (Inr (), a_pubsub (Some [(''invalidation'',
             PDict [(''ruid'', PStr ''uid1''), (''data'', PDict [(''keys'', PList [])])])]))"
proof -
  have n: "driver (a_pubsub None) = None" by (simp add: a_pubsub_def)
  have p: "publish a_pubsub_env ''invalidation'' ''uid1'' (PDict [(''keys'', PList [])]) (a_pubsub (Some []))
       = (Inr (), a_pubsub (Some [(''invalidation'',
             PDict [(''ruid'', PStr ''uid1''), (''data'', PDict [(''keys'', PList [])])])]))"
    by (simp add: publish_def a_pubsub_env_def a_pubsub_def)
  from no_pubsub_driver [OF n, of a_pubsub_env "''invalidation''" "''uid1''"
      "PDict [(''keys'', PList [])]" "invalidate_callback a_cache_env"] n p
  show ?thesis by (intro conjI) blast+
qed

end
